theory Spec2Isabelle
  imports Main "HOL-Library.Char_ord" "HOL-Library.List_Lexorder"
begin

section \<open>Thrown values\<close>

text \<open>
  A JavaScript \<^verbatim>\<open>throw\<close> can raise any value. The code under study inspects two
  things of a caught value: its \<^verbatim>\<open>code\<close> field (\<^verbatim>\<open>isPrismaError\<close>) and its
  \<^verbatim>\<open>message\<close>. A thrown object is therefore modelled by these two fields; the other
  constructors are the values that are not objects.
\<close>

datatype code_field = NoCode | StrCode string | OtherCode

datatype thrown = Undefined | NullValue | Primitive string | Obj code_field string

fun message_of :: "thrown \<Rightarrow> string" where
  "message_of (Obj c m) = m"
| "message_of _ = []"

section \<open>Retry policy (src/db/utils.ts)\<close>

definition CONNECTION_ERROR :: string where "CONNECTION_ERROR = ''P1001''"
definition CONNECTION_TIMEOUT :: string where "CONNECTION_TIMEOUT = ''P1008''"
definition DATABASE_NOT_FOUND :: string where "DATABASE_NOT_FOUND = ''P1003''"
definition UNIQUE_CONSTRAINT :: string where "UNIQUE_CONSTRAINT = ''P2002''"
definition FOREIGN_KEY_CONSTRAINT :: string where "FOREIGN_KEY_CONSTRAINT = ''P2003''"
definition RECORD_NOT_FOUND :: string where "RECORD_NOT_FOUND = ''P2025''"

text \<open>
  \<^verbatim>\<open>typeof error === 'object' && error !== null && 'code' in error &&
  typeof error.code === 'string'\<close>
\<close>

fun isPrismaError :: "thrown \<Rightarrow> bool" where
  "isPrismaError (Obj (StrCode c) m) = True"
| "isPrismaError _ = False"

fun code_of :: "thrown \<Rightarrow> string" where
  "code_of (Obj (StrCode c) m) = c"
| "code_of _ = []"

record RetryConfig =
  maxAttempts :: int
  delayMs :: int
  backoffMultiplier :: int

definition DEFAULT_RETRY_CONFIG :: RetryConfig where
  "DEFAULT_RETRY_CONFIG = \<lparr>maxAttempts = 3, delayMs = 100, backoffMultiplier = 2\<rparr>"

text \<open>\<^verbatim>\<open>Partial<RetryConfig>\<close>: every field may be left out.\<close>

record PartialRetryConfig =
  p_maxAttempts :: "int option"
  p_delayMs :: "int option"
  p_backoffMultiplier :: "int option"

definition no_config :: PartialRetryConfig where
  "no_config = \<lparr>p_maxAttempts = None, p_delayMs = None, p_backoffMultiplier = None\<rparr>"

text \<open>\<^verbatim>\<open>{ ...DEFAULT_RETRY_CONFIG, ...config }\<close>\<close>

definition merge_config :: "PartialRetryConfig \<Rightarrow> RetryConfig" where
  "merge_config config =
     \<lparr>maxAttempts = (case p_maxAttempts config of None \<Rightarrow> maxAttempts DEFAULT_RETRY_CONFIG | Some n \<Rightarrow> n),
      delayMs = (case p_delayMs config of None \<Rightarrow> delayMs DEFAULT_RETRY_CONFIG | Some n \<Rightarrow> n),
      backoffMultiplier =
        (case p_backoffMultiplier config of None \<Rightarrow> backoffMultiplier DEFAULT_RETRY_CONFIG | Some n \<Rightarrow> n)\<rparr>"

definition shouldRetry :: "thrown \<Rightarrow> bool" where
  "shouldRetry error \<longleftrightarrow>
     isPrismaError error \<and> (code_of error = CONNECTION_ERROR \<or> code_of error = CONNECTION_TIMEOUT)"

text \<open>
  The wrapped operation is a closure with effects: it is a function of a state \<open>'s\<close>
  that returns its outcome (a thrown value or a result) and the next state.

  The loop of \<^verbatim>\<open>withRetry\<close> carries \<^verbatim>\<open>attempt\<close>, \<^verbatim>\<open>delay\<close> and \<^verbatim>\<open>lastError\<close>.
  Two more arguments record what the run did: \<open>tr\<close>, the outcome of every invocation of
  the operation in order, and \<open>sl\<close>, the delay of every \<^verbatim>\<open>setTimeout\<close> wait.
\<close>

type_synonym ('a, 's) operation = "'s \<Rightarrow> (thrown + 'a) \<times> 's"

type_synonym ('a, 's) retry_run = "(thrown + 'a) \<times> 's \<times> (thrown + 'a) list \<times> int list"

function withRetry_loop ::
  "('a, 's) operation \<Rightarrow> RetryConfig \<Rightarrow> int \<Rightarrow> int \<Rightarrow> thrown \<Rightarrow> 's \<Rightarrow>
     (thrown + 'a) list \<Rightarrow> int list \<Rightarrow> ('a, 's) retry_run" where
  "withRetry_loop operation retryConfig attempt delay lastError s tr sl =
     (if attempt \<le> maxAttempts retryConfig then
        (case operation s of
           (Inr v, s') \<Rightarrow> (Inr v, s', tr @ [Inr v], sl)
         | (Inl error, s') \<Rightarrow>
             (if \<not> shouldRetry error \<or> attempt = maxAttempts retryConfig
              then (Inl error, s', tr @ [Inl error], sl)
              else withRetry_loop operation retryConfig (attempt + 1)
                     (delay * backoffMultiplier retryConfig) error s'
                     (tr @ [Inl error]) (sl @ [delay])))
      else (Inl lastError, s, tr, sl))"
  by pat_completeness auto
termination
  by (relation "measure (\<lambda>(operation, retryConfig, attempt, delay, lastError, s, tr, sl).
        nat (maxAttempts retryConfig - attempt))") auto

definition withRetry ::
  "('a, 's) operation \<Rightarrow> PartialRetryConfig \<Rightarrow> 's \<Rightarrow> ('a, 's) retry_run" where
  "withRetry operation config s =
     (let retryConfig = merge_config config
      in withRetry_loop operation retryConfig 1 (delayMs retryConfig) Undefined s [] [])"

text \<open>An operation that throws \<open>e1\<close>, then \<open>e2\<close>, then returns \<open>v\<close>; its state counts its invocations.\<close>

definition flaky :: "thrown \<Rightarrow> thrown \<Rightarrow> 'a \<Rightarrow> ('a, nat) operation" where
  "flaky e1 e2 v n = (if n = 0 then Inl e1 else if n = 1 then Inl e2 else Inr v, Suc n)"

definition always_throws :: "thrown \<Rightarrow> ('a, nat) operation" where
  "always_throws e n = (Inl e, Suc n)"

definition P1001err :: thrown where
  "P1001err = Obj (StrCode ''P1001'') ''Can't reach database server''"

definition P2002err :: thrown where
  "P2002err = Obj (StrCode ''P2002'') ''Unique constraint failed''"

section \<open>JSON values and strings\<close>

text \<open>
  Values of JSON columns, request metadata and the classifier's parsed response.
  Numbers are restricted to integers. An object is the list of its own properties.
\<close>

datatype json = JNull | JBool bool | JNum int | JStr string | JArr "json list" | JObj "(string \<times> json) list"

text \<open>JavaScript truthiness, as used by \<^verbatim>\<open>!x\<close>, \<^verbatim>\<open>x || y\<close> and \<^verbatim>\<open>x && y\<close>.\<close>

fun truthy :: "json \<Rightarrow> bool" where
  "truthy JNull = False"
| "truthy (JBool b) = b"
| "truthy (JNum n) = (n \<noteq> 0)"
| "truthy (JStr s) = (s \<noteq> [])"
| "truthy (JArr xs) = True"
| "truthy (JObj kvs) = True"

text \<open>\<^verbatim>\<open>x ?? d\<close>: the default replaces \<^verbatim>\<open>undefined\<close> (a missing property) and \<^verbatim>\<open>null\<close>.\<close>

fun nullish_or :: "json option \<Rightarrow> json \<Rightarrow> json" where
  "nullish_or None d = d"
| "nullish_or (Some JNull) d = d"
| "nullish_or (Some v) d = v"

definition startsWith :: "string \<Rightarrow> string \<Rightarrow> bool" where
  "startsWith s p \<longleftrightarrow> take (length p) s = p"

fun includes_str :: "string \<Rightarrow> string \<Rightarrow> bool" where
  "includes_str [] t = (t = [])"
| "includes_str (c # cs) t = (startsWith (c # cs) t \<or> includes_str cs t)"

text \<open>\<^verbatim>\<open>s.split(sep)\<close> for a separator of one character.\<close>

fun split_on :: "char \<Rightarrow> string \<Rightarrow> string list" where
  "split_on sep [] = [[]]"
| "split_on sep (c # cs) =
     (if c = sep then [] # split_on sep cs
      else (case split_on sep cs of p # ps \<Rightarrow> (c # p) # ps | [] \<Rightarrow> [[c]]))"

fun join :: "string \<Rightarrow> string list \<Rightarrow> string" where
  "join sep [] = []"
| "join sep [x] = x"
| "join sep (x # y # ys) = x @ sep @ join sep (y # ys)"

text \<open>
  The case fold of ASCII text: the letters A to Z are mapped to a to z and every other
  character is kept. On text that is all ASCII this is what \<^verbatim>\<open>String.prototype.toLowerCase\<close>
  returns; on other text the library function folds more letters, and nothing is said here
  about it. The library function itself is a field of the environment below.
\<close>

definition ascii_lower_char :: "char \<Rightarrow> char" where
  "ascii_lower_char c = (if CHR ''A'' \<le> c \<and> c \<le> CHR ''Z'' then char_of (of_char c + (32::nat)) else c)"

definition ascii_lower :: "string \<Rightarrow> string" where
  "ascii_lower s = map ascii_lower_char s"

definition ascii :: "string \<Rightarrow> bool" where
  "ascii s \<longleftrightarrow> list_all (\<lambda>c. (of_char c :: nat) < 128) s"

fun show_nat :: "nat \<Rightarrow> string" where
  "show_nat n = (if n < 10 then [char_of (48 + n)] else show_nat (n div 10) @ [char_of (48 + n mod 10)])"

section \<open>Timeout guard (src/db/client.ts)\<close>









section \<open>The relational store\<close>

datatype exec_status = Running | Completed | Failed

datatype trigger = Webhook | Manual | Schedule | Chat

text \<open>The \<^verbatim>\<open>status\<close> argument of \<^verbatim>\<open>updateExecution\<close> has type \<^verbatim>\<open>'completed' | 'failed'\<close>.\<close>

datatype terminal_status = completed | failed

fun status_of :: "terminal_status \<Rightarrow> exec_status" where
  "status_of completed = Completed"
| "status_of failed = Failed"

record execution_row =
  ex_id :: string
  ex_skillId :: string
  ex_status :: exec_status
  ex_trigger :: trigger
  ex_input :: json
  ex_output :: "string option"
  ex_trace :: "json list option"
  ex_error :: "string option"
  ex_durationMs :: "int option"
  ex_tokenCount :: "int option"
  ex_startedAt :: int
  ex_completedAt :: "int option"

record skill_row =
  sk_id :: string
  sk_name :: string
  sk_description :: "string option"
  sk_steps :: json
  sk_isActive :: bool
  sk_runCount :: int
  sk_lastRunAt :: "int option"
  sk_createdAt :: int

text \<open>An error object raised by the storage client or by another capability: its code and message.\<close>

datatype js_error = JsError code_field string

fun err_message :: "js_error \<Rightarrow> string" where
  "err_message (JsError c m) = m"

text \<open>
  The state that the program reads and writes. The tables are lists of rows. \<open>faults\<close> is the
  script of the storage layer: every statement sent to the store takes the head of the script,
  and fails with that error if there is one (an empty script means that no statement fails).
  \<open>clock\<close> is the value that \<^verbatim>\<open>new Date()\<close> and \<^verbatim>\<open>Date.now()\<close> read, in milliseconds;
  \<open>next_id\<close> numbers the rows that \<^verbatim>\<open>create\<close> makes (the schema, which chooses the
  real ids, is not among the sources); \<open>llm_calls\<close> lists the prompts sent to the language
  capability so far.
\<close>

record world =
  skills :: "skill_row list"
  executions :: "execution_row list"
  configs :: "(string \<times> string) list"
  faults :: "js_error option list"
  clock :: int
  next_id :: nat
  llm_calls :: "string list"

definition statement :: "world \<Rightarrow> js_error option \<times> world" where
  "statement w = (case faults w of [] \<Rightarrow> (None, w) | f # fs \<Rightarrow> (f, w\<lparr>faults := fs\<rparr>))"

definition new_id :: "nat \<Rightarrow> string" where
  "new_id n = ''exec-'' @ show_nat n"

definition record_not_found :: js_error where
  "record_not_found = JsError (StrCode RECORD_NOT_FOUND) ''Record to update not found.''"

definition validation_error :: js_error where
  "validation_error = JsError NoCode ''Invalid value provided.''"

text \<open>\<^verbatim>\<open>prisma.execution.create({ data: { skillId, status: 'running', trigger, input, startedAt } })\<close>\<close>

definition execution_create ::
  "string \<Rightarrow> trigger \<Rightarrow> json \<Rightarrow> int \<Rightarrow> world \<Rightarrow> (js_error + execution_row) \<times> world" where
  "execution_create skillId trig inp started w =
     (case statement w of
        (Some e, w') \<Rightarrow> (Inl e, w')
      | (None, w') \<Rightarrow>
          (let row = \<lparr>ex_id = new_id (next_id w'), ex_skillId = skillId, ex_status = Running,
                      ex_trigger = trig, ex_input = inp, ex_output = None, ex_trace = None,
                      ex_error = None, ex_durationMs = None, ex_tokenCount = None,
                      ex_startedAt = started, ex_completedAt = None\<rparr>
           in (Inr row, w'\<lparr>executions := executions w' @ [row], next_id := Suc (next_id w')\<rparr>)))"

text \<open>
  The \<^verbatim>\<open>data\<close> of \<^verbatim>\<open>prisma.execution.update\<close>. A field that is \<^verbatim>\<open>undefined\<close> (here
  \<open>None\<close>) is left as it is in the row. \<^verbatim>\<open>durationMs\<close> can come from request metadata, so it
  is any JSON value: a number is stored, \<^verbatim>\<open>null\<close> clears the column, and anything else
  is refused by the client before a statement is sent.
\<close>

record update_result =
  r_status :: terminal_status
  r_output :: "string option"
  r_trace :: "json list option"
  r_error :: "string option"
  r_durationMs :: "json option"
  r_tokenCount :: "int option"

fun valid_duration :: "json option \<Rightarrow> bool" where
  "valid_duration None = True"
| "valid_duration (Some JNull) = True"
| "valid_duration (Some (JNum n)) = True"
| "valid_duration (Some v) = False"

fun set_duration :: "json option \<Rightarrow> int option \<Rightarrow> int option" where
  "set_duration (Some (JNum n)) old = Some n"
| "set_duration (Some JNull) old = None"
| "set_duration v old = old"

definition or_keep :: "'a option \<Rightarrow> 'a option \<Rightarrow> 'a option" where
  "or_keep new old = (case new of None \<Rightarrow> old | Some v \<Rightarrow> Some v)"

definition apply_update :: "update_result \<Rightarrow> int \<Rightarrow> execution_row \<Rightarrow> execution_row" where
  "apply_update result now row =
     row\<lparr>ex_status := status_of (r_status result),
         ex_output := or_keep (r_output result) (ex_output row),
         ex_trace := or_keep (r_trace result) (ex_trace row),
         ex_error := or_keep (r_error result) (ex_error row),
         ex_durationMs := set_duration (r_durationMs result) (ex_durationMs row),
         ex_tokenCount := or_keep (r_tokenCount result) (ex_tokenCount row),
         ex_completedAt := Some now\<rparr>"

definition execution_update ::
  "string \<Rightarrow> update_result \<Rightarrow> int \<Rightarrow> world \<Rightarrow> (js_error + unit) \<times> world" where
  "execution_update executionId result now w =
     (if \<not> valid_duration (r_durationMs result) then (Inl validation_error, w)
      else case statement w of
        (Some e, w') \<Rightarrow> (Inl e, w')
      | (None, w') \<Rightarrow>
          (if \<exists>row \<in> set (executions w'). ex_id row = executionId
           then (Inr (), w'\<lparr>executions :=
                   map (\<lambda>row. if ex_id row = executionId then apply_update result now row else row)
                     (executions w')\<rparr>)
           else (Inl record_not_found, w')))"

definition execution_findUnique :: "string \<Rightarrow> world \<Rightarrow> (js_error + execution_row option) \<times> world" where
  "execution_findUnique executionId w =
     (case statement w of
        (Some e, w') \<Rightarrow> (Inl e, w')
      | (None, w') \<Rightarrow> (Inr (find (\<lambda>row. ex_id row = executionId) (executions w')), w'))"

text \<open>\<^verbatim>\<open>prisma.skill.update({ where: { id }, data: { runCount: { increment: 1 }, lastRunAt: new Date() } })\<close>\<close>

definition skill_update :: "string \<Rightarrow> int \<Rightarrow> world \<Rightarrow> (js_error + unit) \<times> world" where
  "skill_update skillId now w =
     (case statement w of
        (Some e, w') \<Rightarrow> (Inl e, w')
      | (None, w') \<Rightarrow>
          (if \<exists>row \<in> set (skills w'). sk_id row = skillId
           then (Inr (), w'\<lparr>skills :=
                   map (\<lambda>row. if sk_id row = skillId
                               then row\<lparr>sk_runCount := sk_runCount row + 1, sk_lastRunAt := Some now\<rparr>
                               else row)
                     (skills w')\<rparr>)
           else (Inl record_not_found, w')))"

text \<open>
  \<^verbatim>\<open>prisma.skill.findMany({ where: { isActive: true }, orderBy: { name: 'asc' } })\<close>;
  the order of names is taken to be the order of their character codes.
\<close>

definition skill_findMany_active :: "world \<Rightarrow> (js_error + skill_row list) \<times> world" where
  "skill_findMany_active w =
     (case statement w of
        (Some e, w') \<Rightarrow> (Inl e, w')
      | (None, w') \<Rightarrow> (Inr (sort_key sk_name (filter sk_isActive (skills w'))), w'))"

definition skill_findUnique :: "string \<Rightarrow> world \<Rightarrow> (js_error + skill_row option) \<times> world" where
  "skill_findUnique skillId w =
     (case statement w of
        (Some e, w') \<Rightarrow> (Inl e, w')
      | (None, w') \<Rightarrow> (Inr (find (\<lambda>row. sk_id row = skillId) (skills w')), w'))"

definition config_findUnique :: "string \<Rightarrow> world \<Rightarrow> (js_error + string option) \<times> world" where
  "config_findUnique k w =
     (case statement w of
        (Some e, w') \<Rightarrow> (Inl e, w')
      | (None, w') \<Rightarrow> (Inr (map_of (configs w') k), w'))"

definition config_upsert :: "string \<Rightarrow> string \<Rightarrow> world \<Rightarrow> (js_error + unit) \<times> world" where
  "config_upsert k v w =
     (case statement w of
        (Some e, w') \<Rightarrow> (Inl e, w')
      | (None, w') \<Rightarrow> (Inr (), w'\<lparr>configs := (k, v) # filter (\<lambda>kv. fst kv \<noteq> k) (configs w')\<rparr>))"

section \<open>Execution tracking (src/database.ts)\<close>

text \<open>\<^verbatim>\<open>createExecution\<close>: one \<^verbatim>\<open>create\<close> statement; a failure is logged and thrown again.\<close>

definition createExecution ::
  "string \<Rightarrow> string \<Rightarrow> trigger \<Rightarrow> json option \<Rightarrow> world \<Rightarrow> (js_error + string) \<times> world" where
  "createExecution skillId requestId trig inp w =
     (case execution_create skillId trig
             (case inp of None \<Rightarrow> JObj [] | Some i \<Rightarrow> if truthy i then i else JObj []) (clock w) w of
        (Inl error, w') \<Rightarrow> (Inl error, w')
      | (Inr execution, w') \<Rightarrow> (Inr (ex_id execution), w'))"

text \<open>
  \<^verbatim>\<open>updateExecution\<close>: the update of the row, the lookup of its \<^verbatim>\<open>skillId\<close> and the
  update of the skill are three statements; the first that fails ends the function, and the
  error is logged and not thrown.
\<close>

definition updateExecution :: "string \<Rightarrow> update_result \<Rightarrow> world \<Rightarrow> world" where
  "updateExecution executionId result w =
     (case execution_update executionId result (clock w) w of
        (Inl error, w1) \<Rightarrow> w1
      | (Inr u, w1) \<Rightarrow>
          (case execution_findUnique executionId w1 of
             (Inl error, w2) \<Rightarrow> w2
           | (Inr execution, w2) \<Rightarrow>
               (case execution of
                  None \<Rightarrow> w2
                | Some row \<Rightarrow>
                    (if ex_skillId row \<noteq> [] then snd (skill_update (ex_skillId row) (clock w2) w2)
                     else w2))))"

record file_metadata =
  f_name :: string
  f_url :: string

text \<open>
  The \<^verbatim>\<open>metadata\<close> that the pipeline passes to \<^verbatim>\<open>upsertResult\<close> is
  \<^verbatim>\<open>{ ...metadata, executionId }\<close>: the properties of the request's metadata, and the
  execution id (or \<^verbatim>\<open>null\<close>) under the key \<^verbatim>\<open>executionId\<close>.
\<close>

record result_metadata =
  md_request :: "(string \<times> json) list option"
  md_executionId :: "string option"

definition md_durationMs :: "result_metadata \<Rightarrow> json option" where
  "md_durationMs md = (case md_request md of None \<Rightarrow> None | Some kvs \<Rightarrow> map_of kvs ''durationMs'')"

definition upsertResult ::
  "string \<Rightarrow> string \<Rightarrow> file_metadata list \<Rightarrow> result_metadata \<Rightarrow> world \<Rightarrow> world" where
  "upsertResult requestId text files md w =
     (case md_executionId md of
        None \<Rightarrow> w
      | Some executionId \<Rightarrow>
          (if executionId \<noteq> [] then
             updateExecution executionId
               \<lparr>r_status = completed, r_output = Some text, r_trace = None, r_error = None,
                r_durationMs = md_durationMs md, r_tokenCount = None\<rparr> w
           else w))"

record workflow_summary =
  ws_id :: string
  ws_name :: string
  ws_description :: string

definition getAllWorkflows :: "world \<Rightarrow> workflow_summary list \<times> world" where
  "getAllWorkflows w =
     (case skill_findMany_active w of
        (Inl error, w') \<Rightarrow> ([], w')
      | (Inr rows, w') \<Rightarrow>
          (map (\<lambda>skill. \<lparr>ws_id = sk_id skill, ws_name = sk_name skill,
                         ws_description = (case sk_description skill of None \<Rightarrow> [] | Some d \<Rightarrow> d)\<rparr>) rows,
           w'))"

record Workflow =
  wf_id :: string
  wf_name :: string
  wf_description :: string
  wf_steps :: json
  wf_created_at :: int

definition getWorkflowById :: "string \<Rightarrow> world \<Rightarrow> Workflow option \<times> world" where
  "getWorkflowById skillId w =
     (case skill_findUnique skillId w of
        (Inl error, w') \<Rightarrow> (None, w')
      | (Inr None, w') \<Rightarrow> (None, w')
      | (Inr (Some skill), w') \<Rightarrow>
          (Some \<lparr>wf_id = sk_id skill, wf_name = sk_name skill,
                 wf_description = (case sk_description skill of None \<Rightarrow> [] | Some d \<Rightarrow> d),
                 wf_steps = (if truthy (sk_steps skill) then sk_steps skill else JArr []),
                 wf_created_at = sk_createdAt skill\<rparr>, w'))"

section \<open>Transaction helpers (src/db/utils.ts)\<close>

text \<open>
  \<^verbatim>\<open>createSkillExecution\<close> runs the \<^verbatim>\<open>create\<close> and the skill update inside
  \<^verbatim>\<open>$transaction\<close>: when either statement fails, the tables are as they were before.
  Here \<^verbatim>\<open>input || null\<close> is stored, and \<^verbatim>\<open>startedAt\<close> is left to the store.
\<close>

definition createSkillExecution ::
  "string \<Rightarrow> trigger \<Rightarrow> json option \<Rightarrow> world \<Rightarrow> (js_error + execution_row) \<times> world" where
  "createSkillExecution skillId trig inp w =
     (case execution_create skillId trig
             (case inp of None \<Rightarrow> JNull | Some i \<Rightarrow> if truthy i then i else JNull) (clock w) w of
        (Inl error, w1) \<Rightarrow> (Inl error, w\<lparr>faults := faults w1\<rparr>)
      | (Inr execution, w1) \<Rightarrow>
          (case skill_update skillId (clock w1) w1 of
             (Inl error, w2) \<Rightarrow> (Inl error, w\<lparr>faults := faults w2\<rparr>)
           | (Inr u, w2) \<Rightarrow> (Inr execution, w2)))"

section \<open>Capabilities outside the sources\<close>

datatype content_block = TextBlock string | OtherBlock

record agent_result =
  ar_text :: string
  ar_workingDirectory :: string
  ar_trace :: "json list"

text \<open>
  What \<^verbatim>\<open>executeAgent\<close> and \<^verbatim>\<open>executeWorkflowOrchestrator\<close> do is not part of the
  pipeline: a run is given by its outcome and by the time it takes. The model takes storage
  statements to be instantaneous, so the clock moves only while an agent runs.
\<close>

record agent_run =
  run_outcome :: "js_error + agent_result"
  run_elapsed :: int

text \<open>
  The process environment and the library calls that the sources make:
  the two environment variables; \<^verbatim>\<open>crypto\<close> (\<open>sha256\<close>, the AES-256-GCM \<open>cipher\<close> that
  returns the base64 ciphertext and the authentication tag, the \<open>decipher\<close> that fails on a
  bad key, nonce or tag, and the base64 coding of buffers); \<^verbatim>\<open>anthropic.messages.create\<close>
  as a function of the API key and the prompt; \<^verbatim>\<open>JSON.parse\<close> on a text that begins with
  an opening brace, where it throws (\<open>None\<close>) or returns an object;
  \<^verbatim>\<open>String.prototype.toLowerCase\<close>; the prompt files; the
  agent; and the detection and upload of files as one step from the working directory and
  the request id to the uploaded files.
\<close>

record environment =
  VM_ENCRYPTION_SECRET :: "string option"
  ANTHROPIC_API_KEY :: "string option"
  sha256 :: "string \<Rightarrow> string"
  cipher :: "string \<Rightarrow> string \<Rightarrow> string \<Rightarrow> string \<times> string"
  decipher :: "string \<Rightarrow> string \<Rightarrow> string \<Rightarrow> string \<Rightarrow> js_error + string"
  base64 :: "string \<Rightarrow> string"
  from_base64 :: "string \<Rightarrow> string"
  messages_create :: "string \<Rightarrow> string \<Rightarrow> js_error + content_block list"
  JSON_parse :: "string \<Rightarrow> (string \<times> json) list option"
  toLowerCase :: "string \<Rightarrow> string"
  loadPrompts :: "js_error option"
  executeAgent :: "string \<Rightarrow> string \<Rightarrow> agent_run"
  executeWorkflowOrchestrator :: "Workflow \<Rightarrow> string \<Rightarrow> string \<Rightarrow> agent_run"
  uploadDetectedFiles :: "string \<Rightarrow> string \<Rightarrow> js_error + file_metadata list"

section \<open>Secret store (config API handler)\<close>

definition getEncryptionKey :: "environment \<Rightarrow> js_error + string" where
  "getEncryptionKey env =
     (case VM_ENCRYPTION_SECRET env of
        None \<Rightarrow> Inl (JsError NoCode ''VM_ENCRYPTION_SECRET is not configured'')
      | Some secret \<Rightarrow>
          (if secret = [] then Inl (JsError NoCode ''VM_ENCRYPTION_SECRET is not configured'')
           else Inr (sha256 env secret)))"

text \<open>\<open>iv\<close> stands for the 16 bytes that \<^verbatim>\<open>crypto.randomBytes(IV_LENGTH)\<close> returns.\<close>

definition encrypt :: "environment \<Rightarrow> string \<Rightarrow> string \<Rightarrow> js_error + string" where
  "encrypt env iv plaintext =
     (case getEncryptionKey env of
        Inl e \<Rightarrow> Inl e
      | Inr key \<Rightarrow>
          (case cipher env key iv plaintext of
             (encrypted, authTag) \<Rightarrow>
               Inr (''encrypted:'' @ base64 env iv @ '':'' @ base64 env authTag @ '':'' @ encrypted)))"

definition decrypt :: "environment \<Rightarrow> string \<Rightarrow> js_error + string" where
  "decrypt env encryptedValue =
     (if \<not> startsWith encryptedValue ''encrypted:'' then Inr encryptedValue
      else (let parts = split_on (CHR '':'') encryptedValue in
        if length parts \<noteq> 4 then Inl (JsError NoCode ''Invalid encrypted value format'')
        else (case getEncryptionKey env of
                Inl e \<Rightarrow> Inl e
              | Inr key \<Rightarrow>
                  decipher env key (from_base64 env (parts ! 1)) (from_base64 env (parts ! 2)) (parts ! 3))))"

text \<open>
  The handler \<^verbatim>\<open>saveConfig\<close>, reduced to the HTTP status it answers with and the state
  it leaves; \<open>None\<close> is a request body without \<^verbatim>\<open>anthropic_api_key\<close>.
\<close>

definition saveConfig :: "environment \<Rightarrow> string \<Rightarrow> string option \<Rightarrow> world \<Rightarrow> nat \<times> world" where
  "saveConfig env iv anthropic_api_key w =
     (case anthropic_api_key of
        None \<Rightarrow> (400, w)
      | Some k \<Rightarrow>
          (if k = [] then (400, w)
           else if \<not> startsWith k ''sk-ant-'' then (400, w)
           else if length k < 20 then (400, w)
           else (case encrypt env iv k of
                   Inl e \<Rightarrow> (500, w)
                 | Inr encryptedKey \<Rightarrow>
                     (case config_upsert ''anthropic_api_key'' encryptedKey w of
                        (Inl e, w') \<Rightarrow> (500, w')
                      | (Inr u, w') \<Rightarrow> (200, w')))))"

definition getAnthropicApiKey :: "environment \<Rightarrow> world \<Rightarrow> string option \<times> world" where
  "getAnthropicApiKey env w =
     (case config_findUnique ''anthropic_api_key'' w of
        (Inl error, w') \<Rightarrow> (None, w')
      | (Inr None, w') \<Rightarrow> (None, w')
      | (Inr (Some v), w') \<Rightarrow>
          (if v = [] then (None, w')
           else (case decrypt env v of Inl error \<Rightarrow> (None, w') | Inr plain \<Rightarrow> (Some plain, w'))))"

section \<open>Workflow classifier (src/workflow-classifier.ts)\<close>

record ClassificationResult =
  workflowId :: "string option"
  workflowData :: "Workflow option"
  confidence :: json
  reasoning :: "json option"

definition none_result :: ClassificationResult where
  "none_result = \<lparr>workflowId = None, workflowData = None, confidence = JStr ''none'', reasoning = None\<rparr>"

definition type_error :: js_error where
  "type_error = JsError NoCode ''TypeError''"

text \<open>\<^verbatim>\<open>dbApiKey || process.env.ANTHROPIC_API_KEY\<close>, and the error when both are missing or empty.\<close>

definition getAnthropicClient :: "environment \<Rightarrow> world \<Rightarrow> (js_error + string) \<times> world" where
  "getAnthropicClient env w =
     (case getAnthropicApiKey env w of
        (dbApiKey, w') \<Rightarrow>
          (let apiKey = (case dbApiKey of
                           Some k \<Rightarrow> if k \<noteq> [] then Some k else ANTHROPIC_API_KEY env
                         | None \<Rightarrow> ANTHROPIC_API_KEY env)
           in (case apiKey of
                 None \<Rightarrow> (Inl (JsError NoCode ''No Anthropic API key configured. Set it via /api/config or ANTHROPIC_API_KEY env var.''), w')
               | Some k \<Rightarrow>
                   (if k = [] then (Inl (JsError NoCode ''No Anthropic API key configured. Set it via /api/config or ANTHROPIC_API_KEY env var.''), w')
                    else (Inr k, w')))))"

definition workflowList :: "workflow_summary list \<Rightarrow> string" where
  "workflowList workflows = join ''\<newline>'' (map (\<lambda>w. ''- '' @ ws_name w @ '': '' @ ws_description w) workflows)"

definition classificationPrompt :: "workflow_summary list \<Rightarrow> string \<Rightarrow> string" where
  \<open>classificationPrompt workflows userPrompt =
     ''You are a workflow classifier.\<newline>\<newline>''
     @ ''Given the user's request, determine if it matches one of the available pre-built workflows.\<newline>\<newline>''
     @ ''AVAILABLE WORKFLOWS:\<newline>'' @ workflowList workflows @ ''\<newline>\<newline>''
     @ ''USER REQUEST:\<newline>"'' @ userPrompt @ ''"\<newline>\<newline>''
     @ ''INSTRUCTIONS:\<newline>1. Analyze the user's request\<newline>''
     @ ''2. Determine if it clearly matches one of the available workflows\<newline>''
     @ ''3. Respond with JSON ONLY in this exact format:\<newline>\<newline>''
     @ ''{\<newline>  "match": true/false,\<newline>  "workflowName": "exact_workflow_name" or null,\<newline>''
     @ ''  "confidence": "high/medium/low/none",\<newline>  "reasoning": "brief explanation"\<newline>}\<newline>\<newline>''
     @ ''RULES:\<newline>- Only match if you're confident the workflow fits the request\<newline>''
     @ ''- Use exact workflow names from the list above\<newline>''
     @ ''- If uncertain or request is custom/ad-hoc, return match: false\<newline>''
     @ ''- Confidence "high" = clearly matches, "medium" = likely matches, "low" = might match, "none" = no match''\<close>

text \<open>
  \<^verbatim>\<open>text.match(/\{[\s\S]*\}/)\<close>. The class \<^verbatim>\<open>[\s\S]\<close> is every character and the star
  is greedy. \<open>longest_to_close cs\<close> is the longest prefix of \<open>cs\<close> that ends with a closing
  brace; \<open>regex_match\<close> tries the start positions from left to right.
\<close>

fun longest_to_close :: "string \<Rightarrow> string option" where
  "longest_to_close [] = None"
| "longest_to_close (c # cs) =
     (case longest_to_close cs of
        Some m \<Rightarrow> Some (c # m)
      | None \<Rightarrow> if c = CHR ''}'' then Some [c] else None)"

fun regex_match :: "string \<Rightarrow> string option" where
  "regex_match [] = None"
| "regex_match (c # cs) =
     (if c = CHR ''{'' then
        (case longest_to_close cs of Some m \<Rightarrow> Some (c # m) | None \<Rightarrow> regex_match cs)
      else regex_match cs)"

record parsed_response =
  p_match :: json
  p_workflowName :: json
  p_confidence :: json
  p_reasoning :: "json option"

definition no_match :: parsed_response where
  "no_match = \<lparr>p_match = JBool False, p_workflowName = JNull, p_confidence = JStr ''none'', p_reasoning = None\<rparr>"

definition parseClassificationResponse :: "environment \<Rightarrow> string \<Rightarrow> parsed_response" where
  "parseClassificationResponse env text =
     (case regex_match text of
        None \<Rightarrow> no_match
      | Some jsonMatch \<Rightarrow>
          (case JSON_parse env jsonMatch of
             None \<Rightarrow> no_match
           | Some parsed \<Rightarrow>
               \<lparr>p_match = nullish_or (map_of parsed ''match'') (JBool False),
                p_workflowName = nullish_or (map_of parsed ''workflowName'') JNull,
                p_confidence = nullish_or (map_of parsed ''confidence'') (JStr ''none''),
                p_reasoning = map_of parsed ''reasoning''\<rparr>))"

text \<open>
  The part of \<^verbatim>\<open>classifyWorkflow\<close> after the response text is parsed (lines 109 to 159).
  A \<^verbatim>\<open>workflowName\<close> that is truthy and not a string has no \<^verbatim>\<open>toLowerCase\<close>: the call
  throws inside \<^verbatim>\<open>find\<close>.
\<close>

definition resolve_match ::
  "environment \<Rightarrow> workflow_summary list \<Rightarrow> parsed_response \<Rightarrow> world \<Rightarrow> (js_error + ClassificationResult) \<times> world" where
  "resolve_match env workflows parsed w =
     (if \<not> truthy (p_match parsed) \<or> \<not> truthy (p_workflowName parsed) then
        (Inr \<lparr>workflowId = None, workflowData = None,
              confidence = (if truthy (p_confidence parsed) then p_confidence parsed else JStr ''none''),
              reasoning = p_reasoning parsed\<rparr>, w)
      else (case p_workflowName parsed of
              JStr name \<Rightarrow>
                (case find (\<lambda>wf. toLowerCase env (ws_name wf) = toLowerCase env name) workflows of
                   None \<Rightarrow>
                     (Inr \<lparr>workflowId = None, workflowData = None, confidence = JStr ''none'',
                           reasoning = Some (JStr ''Suggested workflow not found in database'')\<rparr>, w)
                 | Some matchedWorkflow \<Rightarrow>
                     (case getWorkflowById (ws_id matchedWorkflow) w of
                        (None, w') \<Rightarrow> (Inr none_result, w')
                      | (Some data, w') \<Rightarrow>
                          (Inr \<lparr>workflowId = Some (wf_id data), workflowData = Some data,
                                confidence = (if truthy (p_confidence parsed) then p_confidence parsed
                                              else JStr ''medium''),
                                reasoning = p_reasoning parsed\<rparr>, w')))
            | other \<Rightarrow> (Inl type_error, w)))"

text \<open>The body of the \<^verbatim>\<open>try\<close> block of \<^verbatim>\<open>classifyWorkflow\<close>; \<open>Inl\<close> is an exception that leaves it.\<close>

definition classifyWorkflow_try ::
  "environment \<Rightarrow> string \<Rightarrow> world \<Rightarrow> (js_error + ClassificationResult) \<times> world" where
  "classifyWorkflow_try env userPrompt w =
     (case getAllWorkflows w of
        (workflows, w1) \<Rightarrow>
          (if length workflows = 0 then (Inr none_result, w1)
           else (case getAnthropicClient env w1 of
                   (Inl e, w2) \<Rightarrow> (Inl e, w2)
                 | (Inr apiKey, w2) \<Rightarrow>
                     (let prompt = classificationPrompt workflows userPrompt;
                          w3 = w2\<lparr>llm_calls := llm_calls w2 @ [prompt]\<rparr>
                      in (case messages_create env apiKey prompt of
                            Inl e \<Rightarrow> (Inl e, w3)
                          | Inr [] \<Rightarrow> (Inl type_error, w3)
                          | Inr (OtherBlock # rest) \<Rightarrow>
                              (Inl (JsError NoCode ''Unexpected response type from Claude''), w3)
                          | Inr (TextBlock text # rest) \<Rightarrow>
                              resolve_match env workflows (parseClassificationResponse env text) w3)))))"

text \<open>\<^verbatim>\<open>classifyWorkflow\<close>: the \<^verbatim>\<open>catch\<close> clause turns every exception into the result for no match.\<close>

definition classifyWorkflow ::
  "environment \<Rightarrow> string \<Rightarrow> world \<Rightarrow> (js_error + ClassificationResult) \<times> world" where
  "classifyWorkflow env userPrompt w =
     (case classifyWorkflow_try env userPrompt w of
        (Inl error, w') \<Rightarrow> (Inr none_result, w')
      | (Inr result, w') \<Rightarrow> (Inr result, w'))"

section \<open>Pipeline controller (src/webhook.ts)\<close>

definition file_line :: "nat \<times> file_metadata \<Rightarrow> string" where
  "file_line p = show_nat (fst p + 1) @ ''. '' @ f_name (snd p) @ ''\<newline>   URL: '' @ f_url (snd p)"

definition formatFilesForResponse :: "file_metadata list \<Rightarrow> string" where
  "formatFilesForResponse files =
     (if length files = 0 then []
      else ''\<newline>\<newline>--- Files Generated ---\<newline>''
           @ join ''\<newline>'' (map file_line (zip [0 ..< length files] files)))"

text \<open>
  Modelled from the spec: \<^verbatim>\<open>AgentError\<close> of \<^verbatim>\<open>utils/errors.js\<close>, which is not among the
  sources. An orchestration failure is surfaced with its class and message; the error keeps
  the message it is constructed with.
\<close>

definition AgentError :: "string \<Rightarrow> js_error \<Rightarrow> js_error" where
  "AgentError msg cause = JsError NoCode msg"

record WebhookResponse =
  wr_response :: string
  wr_files :: "file_metadata list"
  wr_requestId :: string
  wr_trace :: "json list"
  wr_workflowId :: "string option"
  wr_workflow :: "Workflow option"

record request =
  rq_prompt :: string
  rq_requestId :: string
  rq_searchWorkflow :: bool
  rq_metadata :: "(string \<times> json) list option"
  rq_startTime :: int

text \<open>\<^verbatim>\<open>classification.workflowId && classification.workflowData\<close>\<close>

definition matched_workflow :: "ClassificationResult \<Rightarrow> (string \<times> Workflow) option" where
  "matched_workflow c =
     (case workflowId c of
        None \<Rightarrow> None
      | Some i \<Rightarrow>
          (if i = [] then None
           else (case workflowData c of None \<Rightarrow> None | Some d \<Rightarrow> Some (i, d))))"

definition matched :: "ClassificationResult \<Rightarrow> bool" where
  "matched c \<longleftrightarrow> matched_workflow c \<noteq> None"

text \<open>Lines 168 to 199: the classification, when the request asks for it.\<close>

definition classify_step :: "environment \<Rightarrow> request \<Rightarrow> world \<Rightarrow> ClassificationResult \<times> world" where
  "classify_step env rq w =
     (if rq_searchWorkflow rq then
        (case classifyWorkflow env (rq_prompt rq) w of
           (Inr c, w') \<Rightarrow> (c, w')
         | (Inl error, w') \<Rightarrow> (none_result, w'))
      else (none_result, w))"

definition execution_input :: "request \<Rightarrow> json" where
  "execution_input rq =
     JObj ([(''prompt'', JStr (rq_prompt rq))]
           @ (case rq_metadata rq of None \<Rightarrow> [] | Some m \<Rightarrow> [(''metadata'', JObj m)])
           @ [(''requestId'', JStr (rq_requestId rq))])"

text \<open>Lines 207 to 221: the execution record, when a skill was matched. A failure is logged only.\<close>

definition create_step :: "ClassificationResult \<Rightarrow> request \<Rightarrow> world \<Rightarrow> string option \<times> world" where
  "create_step c rq w =
     (case matched_workflow c of
        Some (skillId, workflow) \<Rightarrow>
          (case createExecution skillId (rq_requestId rq) Webhook (Some (execution_input rq)) w of
             (Inr executionId, w') \<Rightarrow> (Some executionId, w')
           | (Inl error, w') \<Rightarrow> (None, w'))
      | None \<Rightarrow> (None, w))"

text \<open>
  Lines 223 to 270: the orchestrator for a matched skill, the one-off agent otherwise; a
  failure becomes an \<^verbatim>\<open>AgentError\<close> whose message depends on the word timeout.
\<close>

definition execute_step ::
  "environment \<Rightarrow> ClassificationResult \<Rightarrow> request \<Rightarrow> world \<Rightarrow> (js_error + agent_result) \<times> world" where
  "execute_step env c rq w =
     (let run = (case matched_workflow c of
                   Some (skillId, workflow) \<Rightarrow>
                     executeWorkflowOrchestrator env workflow (rq_prompt rq) (rq_requestId rq)
                 | None \<Rightarrow> executeAgent env (rq_prompt rq) (rq_requestId rq));
          w' = w\<lparr>clock := clock w + run_elapsed run\<rparr>
      in (case run_outcome run of
            Inr agentResult \<Rightarrow> (Inr agentResult, w')
          | Inl error \<Rightarrow>
              (if includes_str (err_message error) ''timeout''
               then (Inl (AgentError ''Agent execution timeout'' error), w')
               else (Inl (AgentError ''Agent execution failed'' error), w'))))"

text \<open>Lines 272 to 308: file processing never fails the request.\<close>

definition files_step :: "environment \<Rightarrow> request \<Rightarrow> string \<Rightarrow> file_metadata list" where
  "files_step env rq workingDirectory =
     (if workingDirectory \<noteq> [] then
        (case uploadDetectedFiles env workingDirectory (rq_requestId rq) of
           Inr uploadedFiles \<Rightarrow> uploadedFiles
         | Inl error \<Rightarrow> [])
      else [])"

text \<open>Lines 320 to 349: the result is stored, then the execution record is updated.\<close>

definition store_step ::
  "request \<Rightarrow> string option \<Rightarrow> string \<Rightarrow> file_metadata list \<Rightarrow> json list \<Rightarrow> world \<Rightarrow> world" where
  "store_step rq executionId agentResponse uploadedFiles conversationTrace w =
     (let w1 = upsertResult (rq_requestId rq) agentResponse uploadedFiles
                 \<lparr>md_request = rq_metadata rq, md_executionId = executionId\<rparr> w
      in (case executionId of
            None \<Rightarrow> w1
          | Some eid \<Rightarrow>
              (if eid \<noteq> [] then
                 updateExecution eid
                   \<lparr>r_status = completed, r_output = Some agentResponse, r_trace = Some conversationTrace,
                    r_error = None, r_durationMs = Some (JNum (clock w1 - rq_startTime rq)),
                    r_tokenCount = None\<rparr> w1
               else w1)))"

text \<open>Lines 384 to 414: the outer \<^verbatim>\<open>catch\<close> marks the execution as failed and throws again.\<close>

definition failure_step :: "request \<Rightarrow> string option \<Rightarrow> js_error \<Rightarrow> world \<Rightarrow> world" where
  "failure_step rq executionId error w =
     (case executionId of
        None \<Rightarrow> w
      | Some eid \<Rightarrow>
          (if eid \<noteq> [] then
             updateExecution eid
               \<lparr>r_status = failed, r_output = None, r_trace = None, r_error = Some (err_message error),
                r_durationMs = Some (JNum (clock w - rq_startTime rq)), r_tokenCount = None\<rparr> w
           else w))"

definition processWebhook :: "environment \<Rightarrow> request \<Rightarrow> world \<Rightarrow> (js_error + WebhookResponse) \<times> world" where
  "processWebhook env rq w =
     (case loadPrompts env of
        Some error \<Rightarrow> (Inl error, failure_step rq None error w)
      | None \<Rightarrow>
          (case classify_step env rq w of
             (classification, w1) \<Rightarrow>
               (case create_step classification rq w1 of
                  (executionId, w2) \<Rightarrow>
                    (case execute_step env classification rq w2 of
                       (Inl error, w3) \<Rightarrow> (Inl error, failure_step rq executionId error w3)
                     | (Inr agentResult, w3) \<Rightarrow>
                         (let uploadedFiles = files_step env rq (ar_workingDirectory agentResult);
                              agentResponse = ar_text agentResult @ formatFilesForResponse uploadedFiles;
                              w4 = store_step rq executionId agentResponse uploadedFiles (ar_trace agentResult) w3
                          in (Inr \<lparr>wr_response = agentResponse, wr_files = uploadedFiles,
                                    wr_requestId = rq_requestId rq, wr_trace = ar_trace agentResult,
                                    wr_workflowId = (if matched classification then workflowId classification else None),
                                    wr_workflow = (if matched classification then workflowData classification else None)\<rparr>,
                              w4))))))"

section \<open>A concrete run\<close>

text \<open>
  One active skill that has run five times, a client whose response names it in another
  case, and an agent that succeeds after 250 ms. \<open>parse_example\<close> agrees with
  \<^verbatim>\<open>JSON.parse\<close> on the texts it is applied to below: it accepts the one object and
  rejects every text with something after the object.
\<close>

definition weekly :: skill_row where
  "weekly = \<lparr>sk_id = ''skill-1'', sk_name = ''Weekly Digest'', sk_description = Some ''Send the weekly digest'',
              sk_steps = JArr [JStr ''collect'', JStr ''send''], sk_isActive = True, sk_runCount = 5,
              sk_lastRunAt = None, sk_createdAt = 10\<rparr>"

definition world0 :: world where
  "world0 = \<lparr>skills = [weekly], executions = [], configs = [], faults = [], clock = 1000,
              next_id = 1, llm_calls = []\<rparr>"

definition answer_object :: string where
  \<open>answer_object = ''{"match":true,"workflowName":"weekly digest","confidence":"high"}''\<close>

definition answer_text :: string where
  "answer_text = ''I think... '' @ answer_object"

definition parse_example :: "string \<Rightarrow> (string \<times> json) list option" where
  "parse_example s =
     (if s = answer_object
      then Some [(''match'', JBool True), (''workflowName'', JStr ''weekly digest''), (''confidence'', JStr ''high'')]
      else None)"

definition agent_ok :: agent_run where
  "agent_ok = \<lparr>run_outcome = Inr \<lparr>ar_text = ''done'', ar_workingDirectory = ''/tmp/req-1-1000'', ar_trace = [JStr ''result'']\<rparr>,
               run_elapsed = 250\<rparr>"

definition agent_crash :: agent_run where
  "agent_crash = \<lparr>run_outcome = Inl (JsError NoCode ''boom''), run_elapsed = 250\<rparr>"

definition env0 :: environment where
  "env0 = \<lparr>VM_ENCRYPTION_SECRET = Some ''secret'', ANTHROPIC_API_KEY = Some ''sk-ant-env'',
            sha256 = (\<lambda>s. s), cipher = (\<lambda>key iv p. (rev p, ''tag'')),
            decipher = (\<lambda>key iv authTag c. if authTag = ''tag'' then Inr (rev c) else Inl (JsError NoCode ''bad tag'')),
            base64 = (\<lambda>b. b), from_base64 = (\<lambda>s. s),
            messages_create = (\<lambda>apiKey prompt. Inr [TextBlock answer_text]),
            JSON_parse = parse_example, toLowerCase = ascii_lower, loadPrompts = None,
            executeAgent = (\<lambda>prompt requestId. agent_ok),
            executeWorkflowOrchestrator = (\<lambda>workflow prompt requestId. agent_ok),
            uploadDetectedFiles = (\<lambda>dir requestId. Inr [])\<rparr>"

definition rq0 :: request where
  "rq0 = \<lparr>rq_prompt = ''send the digest'', rq_requestId = ''req-1'', rq_searchWorkflow = True,
           rq_metadata = None, rq_startTime = 1000\<rparr>"

definition weekly_workflow :: Workflow where
  "weekly_workflow = \<lparr>wf_id = ''skill-1'', wf_name = ''Weekly Digest'', wf_description = ''Send the weekly digest'',
                      wf_steps = JArr [JStr ''collect'', JStr ''send''], wf_created_at = 10\<rparr>"

definition c0 :: ClassificationResult where
  "c0 = \<lparr>workflowId = Some ''skill-1'', workflowData = Some weekly_workflow, confidence = JStr ''high'',
          reasoning = None\<rparr>"

text \<open>
  The same environment with an orchestrator that throws after 250 ms, and the same store with
  a connection that fails at its fourth statement, which is the \<^verbatim>\<open>create\<close> of the execution
  record (the classifier sends the three before it).
\<close>

definition env_crash :: environment where
  "env_crash = env0\<lparr>executeWorkflowOrchestrator := (\<lambda>workflow prompt requestId. agent_crash)\<rparr>"

definition world_create_down :: world where
  "world_create_down = world0\<lparr>faults := [None, None, None, Some (JsError (StrCode ''P1001'') ''Can't reach database server'')]\<rparr>"

section \<open>The life of an execution record\<close>

definition terminal :: "execution_row \<Rightarrow> bool" where
  "terminal row \<longleftrightarrow> ex_status row = Completed \<or> ex_status row = Failed"

text \<open>Completed-at is set exactly when the status is terminal.\<close>

definition exec_inv :: "execution_row \<Rightarrow> bool" where
  "exec_inv row \<longleftrightarrow> (ex_completedAt row \<noteq> None) = terminal row"

text \<open>
  What can become of a row: it stays as it is, or it keeps its id and is written with a
  terminal status and a completed-at.
\<close>

definition row_step :: "execution_row \<Rightarrow> execution_row \<Rightarrow> bool" where
  "row_step old new \<longleftrightarrow> new = old \<or> (ex_id new = ex_id old \<and> terminal new \<and> ex_completedAt new \<noteq> None)"

text \<open>
  What can become of the table: the rows that were there remain, in their order, each
  changed by \<open>row_step\<close> at most, and the rows added after them satisfy \<open>exec_inv\<close>.
\<close>

definition table_step :: "world \<Rightarrow> world \<Rightarrow> bool" where
  "table_step w w' \<longleftrightarrow>
     (\<exists>kept added. executions w' = kept @ added \<and> list_all2 row_step (executions w) kept
        \<and> (\<forall>row \<in> set added. exec_inv row))"

text \<open>The state after the concrete run, a second later, and a late failure report for its record.\<close>

definition world1 :: world where
  "world1 = (snd (processWebhook env0 rq0 world0))\<lparr>clock := 2250\<rparr>"

definition late_failure :: update_result where
  "late_failure = \<lparr>r_status = failed, r_output = None, r_trace = None, r_error = Some ''late'',
                   r_durationMs = None, r_tokenCount = None\<rparr>"

section \<open>The first balanced object, in the words of the specification\<close>





section \<open>More concrete runs of the classifier\<close>

text \<open>The example of the specification: the response names Daily Report, the skill is named daily report.\<close>

definition daily :: skill_row where
  "daily = \<lparr>sk_id = ''skill-2'', sk_name = ''daily report'', sk_description = None,
             sk_steps = JNull, sk_isActive = True, sk_runCount = 0,
             sk_lastRunAt = None, sk_createdAt = 20\<rparr>"

definition world_daily :: world where
  "world_daily = world0\<lparr>skills := [weekly, daily]\<rparr>"

definition daily_object :: string where
  \<open>daily_object = ''{"match":true,"workflowName":"Daily Report","confidence":"high"}''\<close>

definition parse_daily :: "string \<Rightarrow> (string \<times> json) list option" where
  "parse_daily s =
     (if s = daily_object
      then Some [(''match'', JBool True), (''workflowName'', JStr ''Daily Report''), (''confidence'', JStr ''high'')]
      else None)"

definition env_daily :: environment where
  "env_daily = env0\<lparr>messages_create := (\<lambda>apiKey prompt. Inr [TextBlock (''I think... '' @ daily_object)]),
                    JSON_parse := parse_daily\<rparr>"

definition daily_workflow :: Workflow where
  "daily_workflow = \<lparr>wf_id = ''skill-2'', wf_name = ''daily report'', wf_description = [],
                      wf_steps = JArr [], wf_created_at = 20\<rparr>"

definition not_found_result :: ClassificationResult where
  "not_found_result = \<lparr>workflowId = None, workflowData = None, confidence = JStr ''none'',
                        reasoning = Some (JStr ''Suggested workflow not found in database'')\<rparr>"

text \<open>A language capability that fails, and a store whose next statement fails.\<close>

definition env_llm_down :: environment where
  "env_llm_down = env0\<lparr>messages_create := (\<lambda>apiKey prompt. Inl (JsError NoCode ''overloaded''))\<rparr>"

definition world_down :: world where
  "world_down = world0\<lparr>faults := [Some (JsError (StrCode ''P1001'') ''Can't reach database server'')]\<rparr>"

definition weekly_summary :: workflow_summary where
  "weekly_summary = \<lparr>ws_id = ''skill-1'', ws_name = ''Weekly Digest'', ws_description = ''Send the weekly digest''\<rparr>"

definition daily_summary :: workflow_summary where
  "daily_summary = \<lparr>ws_id = ''skill-2'', ws_name = ''daily report'', ws_description = []\<rparr>"

definition catalog_daily :: "workflow_summary list" where
  "catalog_daily = [weekly_summary, daily_summary]"

section \<open>What the secret store needs of the cipher\<close>

text \<open>
  The round trip rests on the library and not on the sources: for the key of this
  environment, this nonce and this plaintext, the base64 texts of the nonce and the tag and
  the ciphertext hold no colon, and the decipher given the decoded nonce and tag returns
  the plaintext.
\<close>

definition cipher_round_trip :: "environment \<Rightarrow> string \<Rightarrow> string \<Rightarrow> bool" where
  "cipher_round_trip env iv p \<longleftrightarrow>
     (case getEncryptionKey env of
        Inl e \<Rightarrow> False
      | Inr key \<Rightarrow>
          (case cipher env key iv p of
             (ct, authTag) \<Rightarrow>
               CHR '':'' \<notin> set (base64 env iv) \<and> CHR '':'' \<notin> set (base64 env authTag)
               \<and> CHR '':'' \<notin> set ct
               \<and> decipher env key (from_base64 env (base64 env iv)) (from_base64 env (base64 env authTag)) ct
                    = Inr p))"

definition api_key_example :: string where
  "api_key_example = ''sk-ant-api03-abcdefghij''"

definition iv_example :: string where
  "iv_example = ''0123456789abcdef''"

definition world_plain :: "string \<Rightarrow> world" where
  "world_plain v = world0\<lparr>configs := [(''anthropic_api_key'', v)]\<rparr>"

section \<open>Equality of names up to case, in the words of the specification\<close>

text \<open>
  Two characters are the same letter when they are equal, or one is a capital letter A to Z
  and the other is the small letter 32 codes above it. Two names match without regard to
  case when they have the same length and agree letter by letter. This is not taken from
  the source, which compares the \<^verbatim>\<open>toLowerCase\<close> of both names.
\<close>

definition is_upper :: "char \<Rightarrow> bool" where
  "is_upper c \<longleftrightarrow> 65 \<le> (of_char c :: nat) \<and> (of_char c :: nat) \<le> 90"

definition same_letter :: "char \<Rightarrow> char \<Rightarrow> bool" where
  "same_letter c d \<longleftrightarrow>
     c = d \<or> (is_upper c \<and> (of_char d :: nat) = of_char c + 32)
           \<or> (is_upper d \<and> (of_char c :: nat) = of_char d + 32)"

definition case_insensitive_eq :: "string \<Rightarrow> string \<Rightarrow> bool" where
  "case_insensitive_eq a b \<longleftrightarrow> list_all2 same_letter a b"

text \<open>What is assumed of the library: on ASCII text its \<^verbatim>\<open>toLowerCase\<close> is the ASCII case fold.\<close>

definition folds_ascii :: "environment \<Rightarrow> bool" where
  "folds_ascii env \<longleftrightarrow> (\<forall>s. ascii s \<longrightarrow> toLowerCase env s = ascii_lower s)"

text \<open>One run counted on the skill with the given id: what \<^verbatim>\<open>prisma.skill.update\<close> does to a row.\<close>

definition bump :: "string \<Rightarrow> int \<Rightarrow> skill_row \<Rightarrow> skill_row" where
  "bump skillId now row =
     (if sk_id row = skillId then row\<lparr>sk_runCount := sk_runCount row + 1, sk_lastRunAt := Some now\<rparr> else row)"

section \<open>The retry policy\<close>

lemma shouldRetry_code: "shouldRetry e \<longleftrightarrow> (\<exists>c m. e = Obj (StrCode c) m \<and> (c = ''P1001'' \<or> c = ''P1008''))"
  by (cases e rule: isPrismaError.cases)
     (auto simp: shouldRetry_def CONNECTION_ERROR_def CONNECTION_TIMEOUT_def)

lemma withRetry_loop_trace:
  "withRetry_loop operation cfg attempt delay lastError s tr sl = (r, s', tr', sl') \<Longrightarrow>
     \<exists>new. tr' = tr @ new
       \<and> (\<forall>x\<in>set (butlast new). \<exists>e. x = Inl e \<and> shouldRetry e)
       \<and> (new \<noteq> [] \<longrightarrow> r = last new)
       \<and> (new = [] \<longrightarrow> r = Inl lastError \<and> s' = s \<and> \<not> attempt \<le> maxAttempts cfg)
       \<and> (new \<noteq> [] \<longrightarrow> int (length new) \<le> maxAttempts cfg - attempt + 1)
       \<and> ((\<exists>e. r = Inl e \<and> shouldRetry e) \<and> new \<noteq> [] \<longrightarrow> int (length new) = maxAttempts cfg - attempt + 1)
       \<and> length sl' = length sl + (length new - 1)"
proof (induction operation cfg attempt delay lastError s tr sl rule: withRetry_loop.induct)
  case (1 operation retryConfig attempt delay lastError s tr sl)
  show ?case
  proof (cases "attempt \<le> maxAttempts retryConfig")
    case False
    with "1.prems" show ?thesis by simp
  next
    case True
    obtain out s1 where op: "operation s = (out, s1)" by (cases "operation s")
    show ?thesis
    proof (cases out)
      case (Inr v)
      with True op "1.prems" show ?thesis by auto
    next
      case (Inl e)
      show ?thesis
      proof (cases "\<not> shouldRetry e \<or> attempt = maxAttempts retryConfig")
        case stop: True
        with True op Inl "1.prems" show ?thesis by auto
      next
        case go: False
        with True op Inl "1.prems"
        have rec: "withRetry_loop operation retryConfig (attempt + 1) (delay * backoffMultiplier retryConfig) e s1
                 (tr @ [Inl e]) (sl @ [delay]) = (r, s', tr', sl')" by simp
        from "1.IH"[OF True op[symmetric] Inl _ rec] go
        obtain new where n: "tr' = (tr @ [Inl e]) @ new"
          "\<forall>x\<in>set (butlast new). \<exists>e. x = Inl e \<and> shouldRetry e"
          "new \<noteq> [] \<longrightarrow> r = last new"
          "new = [] \<longrightarrow> r = Inl e \<and> s' = s1 \<and> \<not> attempt + 1 \<le> maxAttempts retryConfig"
          "new \<noteq> [] \<longrightarrow> int (length new) \<le> maxAttempts retryConfig - (attempt + 1) + 1"
          "(\<exists>e. r = Inl e \<and> shouldRetry e) \<and> new \<noteq> [] \<longrightarrow> int (length new) = maxAttempts retryConfig - (attempt + 1) + 1"
          "length sl' = length (sl @ [delay]) + (length new - 1)"
          by auto
        from go True have lt: "attempt < maxAttempts retryConfig" by simp
        with n(4) have ne: "new \<noteq> []" by auto
        show ?thesis
          apply (rule exI[of _ "Inl e # new"])
          using n ne go by (auto simp: butlast_append)
      qed
    qed
  qed
qed

lemma withRetry_loop_prefix:
  "withRetry_loop operation cfg attempt delay lastError s tr sl = (r, s', tr', sl') \<Longrightarrow> \<exists>new. tr' = tr @ new"
  by (drule withRetry_loop_trace) blast

lemma withRetry_first:
  assumes m: "1 \<le> maxAttempts (merge_config config)"
    and run: "withRetry operation config s = (r, s', tr, sl)"
  shows "tr \<noteq> [] \<and> hd tr = fst (operation s)"
proof -
  let ?cfg = "merge_config config"
  obtain out s1 where op: "operation s = (out, s1)" by (cases "operation s")
  from run have loop: "withRetry_loop operation ?cfg 1 (delayMs ?cfg) Undefined s [] [] = (r, s', tr, sl)"
    by (simp add: withRetry_def Let_def)
  have "\<exists>new. tr = [out] @ new"
  proof (cases out)
    case (Inr v)
    with loop m op show ?thesis by (subst (asm) withRetry_loop.simps) auto
  next
    case (Inl e)
    show ?thesis
    proof (cases "\<not> shouldRetry e \<or> 1 = maxAttempts ?cfg")
      case True
      with loop m op Inl show ?thesis by (subst (asm) withRetry_loop.simps) auto
    next
      case False
      with loop m op Inl
      have "withRetry_loop operation ?cfg (1 + 1) (delayMs ?cfg * backoffMultiplier ?cfg) e s1 ([] @ [Inl e]) ([] @ [delayMs ?cfg])
             = (r, s', tr, sl)"
        by (subst (asm) withRetry_loop.simps) simp
      from withRetry_loop_prefix[OF this] Inl show ?thesis by simp
    qed
  qed
  with op show ?thesis by auto
qed

lemma flaky_run: "withRetry (flaky P1001err P1001err ''success'') (no_config\<lparr>p_maxAttempts := Some 3\<rparr>) 0
   = (Inr ''success'', 3, [Inl P1001err, Inl P1001err, Inr ''success''], [100, 200])"
  by (simp add: withRetry_def merge_config_def no_config_def DEFAULT_RETRY_CONFIG_def withRetry_loop.simps flaky_def
      P1001err_def shouldRetry_def CONNECTION_ERROR_def CONNECTION_TIMEOUT_def)

lemma nontransient_run: "withRetry (always_throws P2002err :: (string, nat) operation) no_config 0
   = (Inl P2002err, 1, [Inl P2002err], [])"
  by (simp add: withRetry_def merge_config_def no_config_def DEFAULT_RETRY_CONFIG_def withRetry_loop.simps always_throws_def
      P2002err_def shouldRetry_def CONNECTION_ERROR_def CONNECTION_TIMEOUT_def)

lemma exhausted_run: "withRetry (always_throws P1001err :: (string, nat) operation) no_config 0
   = (Inl P1001err, 3, [Inl P1001err, Inl P1001err, Inl P1001err], [100, 200])"
  by (simp add: withRetry_def merge_config_def no_config_def DEFAULT_RETRY_CONFIG_def withRetry_loop.simps always_throws_def
      P1001err_def shouldRetry_def CONNECTION_ERROR_def CONNECTION_TIMEOUT_def)

text \<open>
  Claim C4. \<^verbatim>\<open>withRetry\<close> invokes the operation again only after an invocation that threw an
  object whose \<^verbatim>\<open>code\<close> field is the string P1001 or P1008, whatever its message; the first
  invocation runs as soon as \<^verbatim>\<open>maxAttempts\<close> is at least 1; a first invocation that throws
  any other value ends the run with that value after exactly one invocation and no wait; with
  \<^verbatim>\<open>maxAttempts = 3\<close>, two transient failures followed by a success give the success value
  after exactly three invocations; the result is always the outcome of the last invocation, and
  a transient error is the result only when all \<^verbatim>\<open>maxAttempts\<close> invocations were made.
\<close>

theorem withRetry_policy:
  assumes run: "withRetry operation config s = (r, s', tr, sl)"
  shows "(\<forall>x\<in>set (butlast tr). \<exists>c m. x = Inl (Obj (StrCode c) m) \<and> (c = ''P1001'' \<or> c = ''P1008''))
       \<and> (\<forall>c m m'. shouldRetry (Obj c m) = shouldRetry (Obj c m'))
       \<and> (1 \<le> maxAttempts (merge_config config) \<longrightarrow> tr \<noteq> [] \<and> hd tr = fst (operation s))
       \<and> (\<forall>e. tr \<noteq> [] \<and> hd tr = Inl e \<and> \<not> shouldRetry e \<longrightarrow> r = Inl e \<and> tr = [Inl e] \<and> sl = [])
       \<and> (\<forall>e1 e2 v s1 s2 s3. p_maxAttempts config = Some 3 \<and> operation s = (Inl e1, s1) \<and> shouldRetry e1
              \<and> operation s1 = (Inl e2, s2) \<and> shouldRetry e2 \<and> operation s2 = (Inr v, s3)
            \<longrightarrow> r = Inr v \<and> length tr = 3)
       \<and> (tr \<noteq> [] \<longrightarrow> r = last tr)
       \<and> ((\<exists>e. r = Inl e \<and> shouldRetry e) \<and> tr \<noteq> [] \<longrightarrow> int (length tr) = maxAttempts (merge_config config))"
proof -
  from run have loop: "withRetry_loop operation (merge_config config) 1 (delayMs (merge_config config)) Undefined s [] [] = (r, s', tr, sl)"
    by (simp add: withRetry_def Let_def)
  from withRetry_loop_trace[OF loop]
  have t1: "\<forall>x\<in>set (butlast tr). \<exists>e. x = Inl e \<and> shouldRetry e"
    and t2: "tr \<noteq> [] \<longrightarrow> r = last tr"
    and t3: "(\<exists>e. r = Inl e \<and> shouldRetry e) \<and> tr \<noteq> [] \<longrightarrow> int (length tr) = maxAttempts (merge_config config)"
    and t4: "length sl = length tr - 1"
    by auto
  have c1: "\<forall>x\<in>set (butlast tr). \<exists>c m. x = Inl (Obj (StrCode c) m) \<and> (c = ''P1001'' \<or> c = ''P1008'')"
    using t1 by (auto simp: shouldRetry_code)
  have c2: "\<forall>c m m'. shouldRetry (Obj c m) = shouldRetry (Obj c m')"
    by (simp add: shouldRetry_code)
  have c3: "1 \<le> maxAttempts (merge_config config) \<longrightarrow> tr \<noteq> [] \<and> hd tr = fst (operation s)"
    using withRetry_first[OF _ run] by blast
  have c4: "\<forall>e. tr \<noteq> [] \<and> hd tr = Inl e \<and> \<not> shouldRetry e \<longrightarrow> r = Inl e \<and> tr = [Inl e] \<and> sl = []"
  proof (intro allI impI)
    fix e assume a: "tr \<noteq> [] \<and> hd tr = Inl e \<and> \<not> shouldRetry e"
    have "butlast tr = []"
    proof (rule ccontr)
      assume "butlast tr \<noteq> []"
      then have "hd tr \<in> set (butlast tr)"
        by (cases tr) (auto split: if_splits)
      with t1 a show False by auto
    qed
    with a have "tr = [Inl e]" by (cases tr) (auto split: if_splits)
    with t2 t4 show "r = Inl e \<and> tr = [Inl e] \<and> sl = []" by simp
  qed
  have c5: "\<forall>e1 e2 v s1 s2 s3. p_maxAttempts config = Some 3 \<and> operation s = (Inl e1, s1) \<and> shouldRetry e1
              \<and> operation s1 = (Inl e2, s2) \<and> shouldRetry e2 \<and> operation s2 = (Inr v, s3)
            \<longrightarrow> r = Inr v \<and> length tr = 3"
  proof (intro allI impI)
    fix e1 e2 v s1 s2 s3
    assume a: "p_maxAttempts config = Some 3 \<and> operation s = (Inl e1, s1) \<and> shouldRetry e1
              \<and> operation s1 = (Inl e2, s2) \<and> shouldRetry e2 \<and> operation s2 = (Inr v, s3)"
    then have m: "maxAttempts (merge_config config) = 3" by (simp add: merge_config_def)
    from a m have "withRetry_loop operation (merge_config config) 1 (delayMs (merge_config config)) Undefined s [] []
        = (Inr v, s3, [Inl e1, Inl e2, Inr v],
           [delayMs (merge_config config), delayMs (merge_config config) * backoffMultiplier (merge_config config)])"
      by (simp add: withRetry_loop.simps)
    with loop show "r = Inr v \<and> length tr = 3" by simp
  qed
  from c1 c2 c3 c4 c5 t2 t3 show ?thesis by blast
qed

theorem withRetry_policy_witness:
  "(case withRetry (flaky P1001err P1001err ''success'') (no_config\<lparr>p_maxAttempts := Some 3\<rparr>) 0 of
      (r, s', tr, sl) \<Rightarrow> r = Inr ''success'' \<and> length tr = 3 \<and> s' = 3)
   \<and> (case withRetry (always_throws P2002err :: (string, nat) operation) no_config 0 of
      (r, s', tr, sl) \<Rightarrow> r = Inl P2002err \<and> tr = [Inl P2002err] \<and> sl = [] \<and> s' = 1)
   \<and> (case withRetry (always_throws P1001err :: (string, nat) operation) no_config 0 of
      (r, s', tr, sl) \<Rightarrow> r = last tr \<and> int (length tr) = maxAttempts (merge_config no_config))"
proof -
  have tr: "shouldRetry P1001err" and ntr: "\<not> shouldRetry P2002err"
    by (simp_all add: shouldRetry_def P1001err_def P2002err_def CONNECTION_ERROR_def CONNECTION_TIMEOUT_def)
  have a: "length [Inl P1001err, Inl P1001err, Inr ''success''] = 3"
    using withRetry_policy[OF flaky_run] tr by (simp add: flaky_def)
  have b: "[Inl P2002err] = [Inl P2002err :: thrown + string] \<and> ([] :: int list) = []"
    using withRetry_policy[OF nontransient_run] ntr by simp
  have c: "Inl P1001err = last [Inl P1001err, Inl P1001err, Inl P1001err :: thrown + string]
        \<and> int (length [Inl P1001err, Inl P1001err, Inl P1001err :: thrown + string]) = maxAttempts (merge_config no_config)"
    using withRetry_policy[OF exhausted_run] tr by simp
  from a b c show ?thesis
    by (simp add: flaky_run nontransient_run exhausted_run)
qed

section \<open>The timeout guard\<close>



section \<open>The execution table\<close>

lemma statement_frame:
  "statement w = (f, w') \<Longrightarrow>
     skills w' = skills w \<and> executions w' = executions w \<and> configs w' = configs w
     \<and> clock w' = clock w \<and> next_id w' = next_id w \<and> llm_calls w' = llm_calls w"
  by (auto simp: statement_def split: list.splits)

lemma statement_faults:
  "statement w = (f, w') \<Longrightarrow> faults w' = tl (faults w) \<and> f = (case faults w of [] \<Rightarrow> None | x # xs \<Rightarrow> x)"
  by (auto simp: statement_def split: list.splits)

lemma row_step_refl: "row_step r r"
  by (simp add: row_step_def)

lemma row_step_trans: "row_step a b \<Longrightarrow> row_step b c \<Longrightarrow> row_step a c"
  by (auto simp: row_step_def)

lemma row_step_inv: "row_step a b \<Longrightarrow> exec_inv a \<Longrightarrow> exec_inv b"
  by (auto simp: row_step_def exec_inv_def)

lemma row_step_terminal: "row_step a b \<Longrightarrow> terminal a \<Longrightarrow> terminal b"
  by (auto simp: row_step_def)

lemma table_step_refl: "table_step w w"
  unfolding table_step_def
  by (rule exI[of _ "executions w"], rule exI[of _ "[]"]) (simp add: list_all2_refl row_step_refl)

lemma table_step_same: "executions w' = executions w \<Longrightarrow> table_step w w'"
  unfolding table_step_def
  by (rule exI[of _ "executions w"], rule exI[of _ "[]"]) (simp add: list_all2_refl row_step_refl)

lemma table_step_cong: "executions w1 = executions w \<Longrightarrow> executions w2 = executions w' \<Longrightarrow> table_step w w' \<Longrightarrow> table_step w1 w2"
  by (simp add: table_step_def)

lemma list_all2_row_step_inv:
  "list_all2 row_step xs ys \<Longrightarrow> \<forall>r\<in>set xs. exec_inv r \<Longrightarrow> \<forall>r\<in>set ys. exec_inv r"
  by (induction rule: list_all2_induct) (auto dest: row_step_inv)

lemma list_all2_row_step_trans:
  "list_all2 row_step xs ys \<Longrightarrow> list_all2 row_step ys zs \<Longrightarrow> list_all2 row_step xs zs"
  by (rule list_all2_trans[where ?P1.0 = row_step and ?P2.0 = row_step]) (auto intro: row_step_trans)

lemma table_step_trans:
  assumes a: "table_step w w'" and b: "table_step w' w''"
  shows "table_step w w''"
proof -
  from a obtain kept added where 1: "executions w' = kept @ added"
    "list_all2 row_step (executions w) kept" "\<forall>row \<in> set added. exec_inv row"
    by (auto simp: table_step_def)
  from b obtain kept2 added2 where 2: "executions w'' = kept2 @ added2"
    "list_all2 row_step (executions w') kept2" "\<forall>row \<in> set added2. exec_inv row"
    by (auto simp: table_step_def)
  from 2(2) 1(1) obtain ka kb where 3: "kept2 = ka @ kb" "list_all2 row_step kept ka" "list_all2 row_step added kb"
    by (auto simp: list_all2_append1)
  have "list_all2 row_step (executions w) ka" using 1(2) 3(2) by (rule list_all2_row_step_trans)
  moreover have "\<forall>row \<in> set (kb @ added2). exec_inv row"
    using list_all2_row_step_inv[OF 3(3) 1(3)] 2(3) by auto
  moreover have "executions w'' = ka @ (kb @ added2)" using 2(1) 3(1) by simp
  ultimately show ?thesis unfolding table_step_def by blast
qed

lemma table_step_inv:
  assumes "table_step w w'" and "\<forall>row\<in>set (executions w). exec_inv row"
  shows "\<forall>row\<in>set (executions w'). exec_inv row"
proof -
  from assms(1) obtain kept added where 1: "executions w' = kept @ added"
    "list_all2 row_step (executions w) kept" "\<forall>row \<in> set added. exec_inv row"
    by (auto simp: table_step_def)
  from list_all2_row_step_inv[OF 1(2) assms(2)] 1(1) 1(3) show ?thesis by auto
qed

lemma apply_update_step: "row_step row (apply_update result now row)"
  by (cases "r_status result") (simp_all add: row_step_def apply_update_def terminal_def)

lemma execution_update_step: "table_step w (snd (execution_update eid result now w))"
proof -
  obtain f w' where s: "statement w = (f, w')" by (cases "statement w")
  have m: "list_all2 row_step (executions w)
            (map (\<lambda>row. if ex_id row = eid then apply_update result now row else row) (executions w))"
    by (simp add: list_all2_map2 list_all2_refl row_step_refl apply_update_step list.rel_refl_strong)
  show ?thesis
  proof (cases "\<not> valid_duration (r_durationMs result)")
    case True
    then show ?thesis by (simp add: execution_update_def table_step_refl)
  next
    case False
    show ?thesis
    proof (cases f)
      case (Some e)
      with s False statement_frame[OF s] show ?thesis
        by (simp add: execution_update_def table_step_same)
    next
      case None
      show ?thesis
      proof (cases "\<exists>row \<in> set (executions w'). ex_id row = eid")
        case True
        with s None False statement_frame[OF s] m show ?thesis
          unfolding table_step_def execution_update_def
          by (intro exI[of _ "map (\<lambda>row. if ex_id row = eid then apply_update result now row else row) (executions w)"]
                exI[of _ "[]"]) simp
      next
        case nf: False
        with s None False statement_frame[OF s] show ?thesis
          by (simp add: execution_update_def table_step_same)
      qed
    qed
  qed
qed

lemma execution_findUnique_frame:
  "skills (snd (execution_findUnique i w)) = skills w \<and> executions (snd (execution_findUnique i w)) = executions w
   \<and> clock (snd (execution_findUnique i w)) = clock w"
proof -
  obtain f w' where s: "statement w = (f, w')" by (cases "statement w")
  with statement_frame[OF s] show ?thesis
    by (cases f) (simp_all add: execution_findUnique_def)
qed

lemma skill_update_frame:
  "executions (snd (skill_update i now w)) = executions w \<and> clock (snd (skill_update i now w)) = clock w"
proof -
  obtain f w' where s: "statement w = (f, w')" by (cases "statement w")
  with statement_frame[OF s] show ?thesis
    by (cases f) (simp_all add: skill_update_def)
qed

lemma skill_findMany_active_frame:
  "skills (snd (skill_findMany_active w)) = skills w \<and> executions (snd (skill_findMany_active w)) = executions w
   \<and> llm_calls (snd (skill_findMany_active w)) = llm_calls w"
proof -
  obtain f w' where s: "statement w = (f, w')" by (cases "statement w")
  with statement_frame[OF s] show ?thesis
    by (cases f) (simp_all add: skill_findMany_active_def)
qed

lemma skill_findUnique_frame:
  "skills (snd (skill_findUnique i w)) = skills w \<and> executions (snd (skill_findUnique i w)) = executions w
   \<and> llm_calls (snd (skill_findUnique i w)) = llm_calls w"
proof -
  obtain f w' where s: "statement w = (f, w')" by (cases "statement w")
  with statement_frame[OF s] show ?thesis
    by (cases f) (simp_all add: skill_findUnique_def)
qed

lemma config_findUnique_frame:
  "skills (snd (config_findUnique k w)) = skills w \<and> executions (snd (config_findUnique k w)) = executions w
   \<and> llm_calls (snd (config_findUnique k w)) = llm_calls w"
proof -
  obtain f w' where s: "statement w = (f, w')" by (cases "statement w")
  with statement_frame[OF s] show ?thesis
    by (cases f) (simp_all add: config_findUnique_def)
qed

lemma getAllWorkflows_frame:
  "skills (snd (getAllWorkflows w)) = skills w \<and> executions (snd (getAllWorkflows w)) = executions w
   \<and> llm_calls (snd (getAllWorkflows w)) = llm_calls w"
  using skill_findMany_active_frame[of w]
  by (cases "skill_findMany_active w") (auto simp: getAllWorkflows_def split: sum.splits)

lemma getWorkflowById_frame:
  "skills (snd (getWorkflowById i w)) = skills w \<and> executions (snd (getWorkflowById i w)) = executions w
   \<and> llm_calls (snd (getWorkflowById i w)) = llm_calls w"
  using skill_findUnique_frame[of i w]
  by (cases "skill_findUnique i w") (auto simp: getWorkflowById_def split: sum.splits option.splits)

lemma getAnthropicApiKey_frame:
  "skills (snd (getAnthropicApiKey env w)) = skills w \<and> executions (snd (getAnthropicApiKey env w)) = executions w
   \<and> llm_calls (snd (getAnthropicApiKey env w)) = llm_calls w"
  using config_findUnique_frame[of "''anthropic_api_key''" w]
  by (cases "config_findUnique ''anthropic_api_key'' w")
     (auto simp: getAnthropicApiKey_def split: sum.splits option.splits)

lemma getAnthropicClient_frame:
  "skills (snd (getAnthropicClient env w)) = skills w \<and> executions (snd (getAnthropicClient env w)) = executions w
   \<and> llm_calls (snd (getAnthropicClient env w)) = llm_calls w"
  using getAnthropicApiKey_frame[of env w]
  by (cases "getAnthropicApiKey env w")
     (auto simp: getAnthropicClient_def Let_def split: option.splits)

lemma resolve_match_frame:
  "skills (snd (resolve_match env wfs parsed w)) = skills w \<and> executions (snd (resolve_match env wfs parsed w)) = executions w
   \<and> llm_calls (snd (resolve_match env wfs parsed w)) = llm_calls w"
proof (cases "\<not> truthy (p_match parsed) \<or> \<not> truthy (p_workflowName parsed)")
  case True
  then show ?thesis by (auto simp: resolve_match_def)
next
  case False
  show ?thesis
  proof (cases "p_workflowName parsed")
    case (JStr name)
    show ?thesis
    proof (cases "find (\<lambda>wf. toLowerCase env (ws_name wf) = toLowerCase env name) wfs")
      case None
      with False JStr show ?thesis by (simp add: resolve_match_def)
    next
      case (Some m)
      with False JStr getWorkflowById_frame[of "ws_id m" w] show ?thesis
        by (cases "getWorkflowById (ws_id m) w") (auto simp: resolve_match_def split: option.splits)
    qed
  qed (use False in \<open>simp_all add: resolve_match_def\<close>)
qed

lemma classifyWorkflow_try_frame:
  "skills (snd (classifyWorkflow_try env p w)) = skills w
   \<and> executions (snd (classifyWorkflow_try env p w)) = executions w"
proof -
  obtain wfs w1 where a: "getAllWorkflows w = (wfs, w1)" by (cases "getAllWorkflows w")
  obtain k w2 where b: "getAnthropicClient env w1 = (k, w2)" by (cases "getAnthropicClient env w1")
  from getAllWorkflows_frame[of w] a have 1: "skills w1 = skills w" "executions w1 = executions w" by simp_all
  from getAnthropicClient_frame[of env w1] b 1 have 2: "skills w2 = skills w" "executions w2 = executions w" by simp_all
  show ?thesis
  proof (cases "length wfs = 0")
    case True
    with a 1 show ?thesis by (simp add: classifyWorkflow_try_def)
  next
    case False
    show ?thesis
    proof (cases k)
      case (Inl e)
      with a b False 2 show ?thesis by (simp add: classifyWorkflow_try_def)
    next
      case (Inr key)
      let ?prompt = "classificationPrompt wfs p"
      let ?w3 = "w2\<lparr>llm_calls := llm_calls w2 @ [?prompt]\<rparr>"
      have 3: "skills ?w3 = skills w" "executions ?w3 = executions w" using 2 by simp_all
      show ?thesis
      proof (cases "messages_create env key ?prompt")
        case (Inl e)
        with a b False Inr 3 show ?thesis by (simp add: classifyWorkflow_try_def Let_def)
      next
        case r: (Inr content)
        show ?thesis
        proof (cases content)
          case Nil
          with a b False Inr r 3 show ?thesis by (simp add: classifyWorkflow_try_def Let_def)
        next
          case (Cons blk rest)
          show ?thesis
          proof (cases blk)
            case OtherBlock
            with a b False Inr r Cons 3 show ?thesis by (simp add: classifyWorkflow_try_def Let_def)
          next
            case (TextBlock t)
            with a b False Inr r Cons 3 resolve_match_frame[of env wfs "parseClassificationResponse env t" ?w3]
            show ?thesis by (simp add: classifyWorkflow_try_def Let_def)
          qed
        qed
      qed
    qed
  qed
qed

lemma classifyWorkflow_frame:
  "skills (snd (classifyWorkflow env p w)) = skills w \<and> executions (snd (classifyWorkflow env p w)) = executions w"
  using classifyWorkflow_try_frame[of env p w]
  by (cases "classifyWorkflow_try env p w") (auto simp: classifyWorkflow_def split: sum.splits)

lemma classify_step_frame:
  "skills (snd (classify_step env rq w)) = skills w \<and> executions (snd (classify_step env rq w)) = executions w"
  using classifyWorkflow_frame[of env "rq_prompt rq" w]
  by (cases "classifyWorkflow env (rq_prompt rq) w") (auto simp: classify_step_def split: sum.splits)

lemma updateExecution_step: "table_step w (updateExecution eid result w)"
proof -
  obtain r1 w1 where a: "execution_update eid result (clock w) w = (r1, w1)"
    by (cases "execution_update eid result (clock w) w")
  from execution_update_step[of w eid result "clock w"] a have s1: "table_step w w1" by simp
  show ?thesis
  proof (cases r1)
    case (Inl e)
    with a s1 show ?thesis by (simp add: updateExecution_def)
  next
    case (Inr u)
    obtain r2 w2 where b: "execution_findUnique eid w1 = (r2, w2)" by (cases "execution_findUnique eid w1")
    from execution_findUnique_frame[of eid w1] b have e2: "executions w2 = executions w1" by simp
    have s2: "table_step w w2" using table_step_cong[OF refl e2 s1] .
    show ?thesis
    proof (cases r2)
      case (Inl e)
      with a b Inr s2 show ?thesis by (simp add: updateExecution_def)
    next
      case found: (Inr ex)
      show ?thesis
      proof (cases ex)
        case None
        with a b Inr found s2 show ?thesis by (simp add: updateExecution_def)
      next
        case (Some row)
        have e3: "executions (snd (skill_update (ex_skillId row) (clock w2) w2)) = executions w2"
          using skill_update_frame by simp
        have "table_step w (snd (skill_update (ex_skillId row) (clock w2) w2))"
          using table_step_cong[OF refl e3 s2] .
        with a b Inr found Some s2 show ?thesis by (simp add: updateExecution_def)
      qed
    qed
  qed
qed

lemma upsertResult_step: "table_step w (upsertResult rid txt files md w)"
  by (auto simp: upsertResult_def table_step_refl updateExecution_step split: option.splits)

lemma store_step_step: "table_step w (store_step rq eid resp files tr w)"
proof -
  let ?w1 = "upsertResult (rq_requestId rq) resp files \<lparr>md_request = rq_metadata rq, md_executionId = eid\<rparr> w"
  have 1: "table_step w ?w1" by (rule upsertResult_step)
  show ?thesis
  proof (cases eid)
    case None
    with 1 show ?thesis by (simp add: store_step_def Let_def)
  next
    case (Some i)
    show ?thesis
    proof (cases "i = []")
      case True
      with Some 1 show ?thesis by (simp add: store_step_def Let_def)
    next
      case False
      with Some have "\<exists>res. store_step rq eid resp files tr w = updateExecution i res ?w1"
        by (auto simp: store_step_def Let_def)
      then obtain res where "store_step rq eid resp files tr w = updateExecution i res ?w1" ..
      then show ?thesis
        using table_step_trans[OF 1 updateExecution_step] by simp
    qed
  qed
qed

lemma failure_step_step: "table_step w (failure_step rq eid e w)"
  by (auto simp: failure_step_def table_step_refl updateExecution_step split: option.splits)

lemma execution_create_effect:
  "execution_create skillId trig inp started w = (r, w') \<Longrightarrow>
     skills w' = skills w \<and> clock w' = clock w \<and>
     (case r of
        Inl e \<Rightarrow> fst (statement w) = Some e \<and> executions w' = executions w
      | Inr row \<Rightarrow> fst (statement w) = None
          \<and> row = \<lparr>ex_id = new_id (next_id w), ex_skillId = skillId, ex_status = Running,
                   ex_trigger = trig, ex_input = inp, ex_output = None, ex_trace = None,
                   ex_error = None, ex_durationMs = None, ex_tokenCount = None,
                   ex_startedAt = started, ex_completedAt = None\<rparr>
          \<and> executions w' = executions w @ [row])"
proof -
  obtain f w1 where s: "statement w = (f, w1)" by (cases "statement w")
  assume "execution_create skillId trig inp started w = (r, w')"
  with s statement_frame[OF s] show ?thesis
    by (cases f) (auto simp: execution_create_def Let_def)
qed

lemma createExecution_effect:
  "createExecution skillId rid trig inp w = (r, w') \<Longrightarrow>
     skills w' = skills w \<and> clock w' = clock w \<and>
     (case r of
        Inl e \<Rightarrow> fst (statement w) = Some e \<and> executions w' = executions w
      | Inr i \<Rightarrow> fst (statement w) = None \<and> i = new_id (next_id w)
          \<and> executions w' = executions w @
               [\<lparr>ex_id = new_id (next_id w), ex_skillId = skillId, ex_status = Running,
                 ex_trigger = trig,
                 ex_input = (case inp of None \<Rightarrow> JObj [] | Some i \<Rightarrow> if truthy i then i else JObj []),
                 ex_output = None, ex_trace = None,
                 ex_error = None, ex_durationMs = None, ex_tokenCount = None,
                 ex_startedAt = clock w, ex_completedAt = None\<rparr>])"
proof -
  let ?inp = "case inp of None \<Rightarrow> JObj [] | Some i \<Rightarrow> if truthy i then i else JObj []"
  assume c: "createExecution skillId rid trig inp w = (r, w')"
  obtain r1 w1 where e: "execution_create skillId trig ?inp (clock w) w = (r1, w1)"
    by (cases "execution_create skillId trig ?inp (clock w) w")
  from execution_create_effect[OF e] c e show ?thesis
    by (cases r1) (auto simp: createExecution_def)
qed

lemma table_step_append:
  "executions w' = executions w @ [row] \<Longrightarrow> exec_inv row \<Longrightarrow> table_step w w'"
  unfolding table_step_def
  by (rule exI[of _ "executions w"], rule exI[of _ "[row]"]) (simp add: list_all2_refl row_step_refl)

lemma create_step_step: "table_step w (snd (create_step c rq w))"
proof (cases "matched_workflow c")
  case None
  then show ?thesis by (simp add: create_step_def table_step_refl)
next
  case (Some p)
  obtain skillId wf where p: "p = (skillId, wf)" by (cases p)
  obtain r w' where c: "createExecution skillId (rq_requestId rq) Webhook (Some (execution_input rq)) w = (r, w')"
    by (cases "createExecution skillId (rq_requestId rq) Webhook (Some (execution_input rq)) w")
  show ?thesis
  proof (cases r)
    case (Inl e)
    with createExecution_effect[OF c] Some p c show ?thesis
      by (simp add: create_step_def table_step_same)
  next
    case (Inr i)
    with createExecution_effect[OF c] Some p c show ?thesis
      by (auto simp: create_step_def exec_inv_def terminal_def intro!: table_step_append)
  qed
qed

lemma execute_step_frame:
  "skills (snd (execute_step env c rq w)) = skills w \<and> executions (snd (execute_step env c rq w)) = executions w"
  by (auto simp: execute_step_def Let_def split: sum.splits option.splits)

lemma processWebhook_step: "table_step w (snd (processWebhook env rq w))"
proof (cases "loadPrompts env")
  case (Some e)
  then show ?thesis by (simp add: processWebhook_def failure_step_def table_step_refl)
next
  case None
  obtain c w1 where a: "classify_step env rq w = (c, w1)" by (cases "classify_step env rq w")
  obtain eid w2 where b: "create_step c rq w1 = (eid, w2)" by (cases "create_step c rq w1")
  obtain r w3 where d: "execute_step env c rq w2 = (r, w3)" by (cases "execute_step env c rq w2")
  from classify_step_frame[of env rq w] a have 1: "table_step w w1" by (simp add: table_step_same)
  from create_step_step[of w1 c rq] b have 2: "table_step w1 w2" by simp
  from execute_step_frame[of env c rq w2] d have 3: "table_step w2 w3" by (simp add: table_step_same)
  note t3 = table_step_trans[OF table_step_trans[OF 1 2] 3]
  show ?thesis
  proof (cases r)
    case (Inl e)
    with None a b d show ?thesis
      by (simp add: processWebhook_def) (rule table_step_trans[OF t3 failure_step_step])
  next
    case (Inr ar)
    with None a b d show ?thesis
      by (simp add: processWebhook_def Let_def) (rule table_step_trans[OF t3 store_step_step])
  qed
qed

lemma table_step_nth:
  assumes "table_step w w'" and "i < length (executions w)"
  shows "i < length (executions w') \<and> ex_id (executions w' ! i) = ex_id (executions w ! i)
         \<and> (terminal (executions w ! i) \<longrightarrow> terminal (executions w' ! i))"
proof -
  from assms(1) obtain kept added where 1: "executions w' = kept @ added"
    "list_all2 row_step (executions w) kept"
    by (auto simp: table_step_def)
  from 1(2) have len: "length kept = length (executions w)" by (simp add: list_all2_lengthD)
  from 1(2) assms(2) have rs: "row_step (executions w ! i) (kept ! i)" by (rule list_all2_nthD)
  from len assms(2) 1(1) have nth: "executions w' ! i = kept ! i" by (simp add: nth_append)
  from rs have "ex_id (kept ! i) = ex_id (executions w ! i)" by (auto simp: row_step_def)
  with rs nth len assms(2) 1(1) show ?thesis by (auto dest: row_step_terminal)
qed

lemma map_field_kept: "(\<And>x. f (g x) = f x) \<Longrightarrow> map f (map g xs) = map f xs"
  by (induction xs) auto

lemma execution_update_keeps:
  "map ex_id (executions (snd (execution_update eid result now w))) = map ex_id (executions w)
   \<and> map ex_skillId (executions (snd (execution_update eid result now w))) = map ex_skillId (executions w)
   \<and> map ex_startedAt (executions (snd (execution_update eid result now w))) = map ex_startedAt (executions w)"
proof -
  obtain f w' where s: "statement w = (f, w')" by (cases "statement w")
  from statement_frame[OF s] have e: "executions w' = executions w" by simp
  show ?thesis
    using s e by (cases f) (auto simp: execution_update_def apply_update_def intro!: map_field_kept)
qed

lemma updateExecution_keeps:
  "map ex_id (executions (updateExecution eid result w)) = map ex_id (executions w)
   \<and> map ex_skillId (executions (updateExecution eid result w)) = map ex_skillId (executions w)
   \<and> map ex_startedAt (executions (updateExecution eid result w)) = map ex_startedAt (executions w)"
proof -
  obtain r1 w1 where u: "execution_update eid result (clock w) w = (r1, w1)"
    by (cases "execution_update eid result (clock w) w")
  from execution_update_keeps[of eid result "clock w" w] u
  have k1: "map ex_id (executions w1) = map ex_id (executions w)
     \<and> map ex_skillId (executions w1) = map ex_skillId (executions w)
     \<and> map ex_startedAt (executions w1) = map ex_startedAt (executions w)" by simp
  obtain r2 w2 where f: "execution_findUnique eid w1 = (r2, w2)" by (cases "execution_findUnique eid w1")
  from execution_findUnique_frame[of eid w1] f have k2: "executions w2 = executions w1" by simp
  have k3: "executions (snd (skill_update i (clock w2) w2)) = executions w2" for i
    using skill_update_frame[of i "clock w2" w2] by simp
  show ?thesis
    using u f k1 k2 k3 by (auto simp: updateExecution_def split: sum.splits option.splits)
qed

lemma upsertResult_keeps:
  "map ex_id (executions (upsertResult rid txt files md w)) = map ex_id (executions w)
   \<and> map ex_skillId (executions (upsertResult rid txt files md w)) = map ex_skillId (executions w)
   \<and> map ex_startedAt (executions (upsertResult rid txt files md w)) = map ex_startedAt (executions w)"
  using updateExecution_keeps by (auto simp: upsertResult_def split: option.splits)

lemma store_step_keeps:
  "map ex_id (executions (store_step rq eid resp files tr w)) = map ex_id (executions w)
   \<and> map ex_skillId (executions (store_step rq eid resp files tr w)) = map ex_skillId (executions w)
   \<and> map ex_startedAt (executions (store_step rq eid resp files tr w)) = map ex_startedAt (executions w)"
  using updateExecution_keeps upsertResult_keeps
  by (auto simp: store_step_def Let_def split: option.splits)

lemma failure_step_keeps:
  "map ex_id (executions (failure_step rq eid e w)) = map ex_id (executions w)
   \<and> map ex_skillId (executions (failure_step rq eid e w)) = map ex_skillId (executions w)
   \<and> map ex_startedAt (executions (failure_step rq eid e w)) = map ex_startedAt (executions w)"
  using updateExecution_keeps by (auto simp: failure_step_def split: option.splits)

lemma store_step_no_id: "store_step rq None resp files tr w = w"
  by (simp add: store_step_def upsertResult_def)

lemma failure_step_no_id: "failure_step rq None e w = w"
  by (simp add: failure_step_def)

lemma matched_workflow_Some:
  "matched_workflow c = Some (i, d) \<Longrightarrow> workflowId c = Some i \<and> workflowData c = Some d \<and> matched c"
  by (auto simp: matched_workflow_def matched_def split: option.splits if_splits)

lemma processWebhook_stages:
  assumes lp: "loadPrompts env = None"
    and cl: "classify_step env rq w = (c, w1)"
    and m: "matched_workflow c = Some (skillId, workflow)"
    and cr: "create_step c rq w1 = (eid, w2)"
    and ex: "execute_step env c rq w2 = (r, w3)"
  shows "processWebhook env rq w =
           (case r of
              Inl error \<Rightarrow> (Inl error, failure_step rq eid error w3)
            | Inr ar \<Rightarrow>
                (Inr \<lparr>wr_response = ar_text ar @ formatFilesForResponse (files_step env rq (ar_workingDirectory ar)),
                      wr_files = files_step env rq (ar_workingDirectory ar),
                      wr_requestId = rq_requestId rq, wr_trace = ar_trace ar,
                      wr_workflowId = Some skillId, wr_workflow = Some workflow\<rparr>,
                 store_step rq eid
                   (ar_text ar @ formatFilesForResponse (files_step env rq (ar_workingDirectory ar)))
                   (files_step env rq (ar_workingDirectory ar)) (ar_trace ar) w3))"
  using matched_workflow_Some[OF m]
  by (cases r) (simp_all add: processWebhook_def lp cl cr ex Let_def)

lemma execute_step_orchestrator:
  assumes m: "matched_workflow c = Some (skillId, workflow)"
    and ex: "execute_step env c rq w2 = (r, w3)"
  shows "w3 = w2\<lparr>clock := clock w2 + run_elapsed (executeWorkflowOrchestrator env workflow (rq_prompt rq) (rq_requestId rq))\<rparr>
       \<and> (\<forall>ar. run_outcome (executeWorkflowOrchestrator env workflow (rq_prompt rq) (rq_requestId rq)) = Inr ar
             \<longrightarrow> r = Inr ar)
       \<and> (\<forall>e. run_outcome (executeWorkflowOrchestrator env workflow (rq_prompt rq) (rq_requestId rq)) = Inl e
             \<longrightarrow> r = Inl (AgentError (if includes_str (err_message e) ''timeout''
                                       then ''Agent execution timeout'' else ''Agent execution failed'') e))"
  using ex m by (auto simp: execute_step_def Let_def split: sum.splits if_splits)

text \<open>
  Claim C1, as amended. For every request in which the classifier matched a skill, the
  pipeline \<^verbatim>\<open>processWebhook\<close> runs, in this order, the classification, the creation of the
  Execution row, the orchestrator for the matched workflow, and the step that stores the result
  or reports the failure. The creation sends one \<^verbatim>\<open>create\<close> statement and writes no Skill. If
  the statement succeeds, the state from which the orchestrator starts has one more Execution
  row, with status running, the id of the matched skill, no completed-at and, as started-at,
  the time before the orchestrator runs; if it fails, no row is added, the pipeline goes on
  without an execution id, the caller's outcome is the orchestrator's and the final state is
  the state the orchestrator left. The orchestrator changes the clock only: when it starts and
  when it ends, the Skill rows, with the run counter and the last-run timestamp, are those the
  request found, so the new Execution is there without an incremented counter. The steps after
  the orchestrator add no row and keep the id, the skill and the started-at of every row.
\<close>

theorem execution_created_before_orchestration:
  assumes lp: "loadPrompts env = None"
    and cl: "classify_step env rq w = (c, w1)"
    and m: "matched_workflow c = Some (skillId, workflow)"
    and cr: "create_step c rq w1 = (eid, w2)"
    and ex: "execute_step env c rq w2 = (r, w3)"
  shows "skills w2 = skills w \<and> skills w3 = skills w
       \<and> (fst (statement w1) = None \<longrightarrow>
            eid = Some (new_id (next_id w1))
            \<and> executions w2 = executions w @
                 [\<lparr>ex_id = new_id (next_id w1), ex_skillId = skillId, ex_status = Running,
                   ex_trigger = Webhook, ex_input = execution_input rq,
                   ex_output = None, ex_trace = None, ex_error = None, ex_durationMs = None,
                   ex_tokenCount = None, ex_startedAt = clock w1, ex_completedAt = None\<rparr>]
            \<and> executions w3 = executions w2)
       \<and> (fst (statement w1) \<noteq> None \<longrightarrow>
            eid = None \<and> executions w2 = executions w \<and> executions w3 = executions w
            \<and> snd (processWebhook env rq w) = w3)
       \<and> w3 = w2\<lparr>clock := clock w1
                    + run_elapsed (executeWorkflowOrchestrator env workflow (rq_prompt rq) (rq_requestId rq))\<rparr>
       \<and> (\<forall>ar. run_outcome (executeWorkflowOrchestrator env workflow (rq_prompt rq) (rq_requestId rq)) = Inr ar
             \<longrightarrow> r = Inr ar)
       \<and> (\<forall>e. run_outcome (executeWorkflowOrchestrator env workflow (rq_prompt rq) (rq_requestId rq)) = Inl e
             \<longrightarrow> r = Inl (AgentError (if includes_str (err_message e) ''timeout''
                                       then ''Agent execution timeout'' else ''Agent execution failed'') e))
       \<and> processWebhook env rq w =
           (case r of
              Inl error \<Rightarrow> (Inl error, failure_step rq eid error w3)
            | Inr ar \<Rightarrow>
                (Inr \<lparr>wr_response = ar_text ar @ formatFilesForResponse (files_step env rq (ar_workingDirectory ar)),
                      wr_files = files_step env rq (ar_workingDirectory ar),
                      wr_requestId = rq_requestId rq, wr_trace = ar_trace ar,
                      wr_workflowId = Some skillId, wr_workflow = Some workflow\<rparr>,
                 store_step rq eid
                   (ar_text ar @ formatFilesForResponse (files_step env rq (ar_workingDirectory ar)))
                   (files_step env rq (ar_workingDirectory ar)) (ar_trace ar) w3))
       \<and> map ex_id (executions (snd (processWebhook env rq w))) = map ex_id (executions w2)
       \<and> map ex_skillId (executions (snd (processWebhook env rq w))) = map ex_skillId (executions w2)
       \<and> map ex_startedAt (executions (snd (processWebhook env rq w))) = map ex_startedAt (executions w2)"
proof -
  let ?orch = "executeWorkflowOrchestrator env workflow (rq_prompt rq) (rq_requestId rq)"
  from classify_step_frame[of env rq w] cl
  have f1: "skills w1 = skills w" "executions w1 = executions w" by simp_all
  obtain cres w' where ce: "createExecution skillId (rq_requestId rq) Webhook (Some (execution_input rq)) w1 = (cres, w')"
    by (cases "createExecution skillId (rq_requestId rq) Webhook (Some (execution_input rq)) w1")
  have t: "truthy (execution_input rq)" by (simp add: execution_input_def)
  note eff = createExecution_effect[OF ce]
  have w2: "w2 = w'" and eid: "eid = (case cres of Inl e \<Rightarrow> None | Inr i \<Rightarrow> Some i)"
    using cr m ce by (auto simp: create_step_def split: sum.splits)
  from eff w2 have f2: "skills w2 = skills w1" "clock w2 = clock w1" by simp_all
  from execute_step_frame[of env c rq w2] ex
  have f3: "skills w3 = skills w2" "executions w3 = executions w2" by simp_all
  note orch = execute_step_orchestrator[OF m ex]
  note stages = processWebhook_stages[OF lp cl m cr ex]
  have 1: "skills w2 = skills w" using f1 f2 by simp
  have 2: "skills w3 = skills w" using f1 f2 f3 by simp
  have 3: "fst (statement w1) = None \<longrightarrow>
            eid = Some (new_id (next_id w1))
            \<and> executions w2 = executions w @
                 [\<lparr>ex_id = new_id (next_id w1), ex_skillId = skillId, ex_status = Running,
                   ex_trigger = Webhook, ex_input = execution_input rq,
                   ex_output = None, ex_trace = None, ex_error = None, ex_durationMs = None,
                   ex_tokenCount = None, ex_startedAt = clock w1, ex_completedAt = None\<rparr>]
            \<and> executions w3 = executions w2"
    using eff w2 eid t f1 f3 by (cases cres) simp_all
  have 4: "fst (statement w1) \<noteq> None \<longrightarrow>
            eid = None \<and> executions w2 = executions w \<and> executions w3 = executions w
            \<and> snd (processWebhook env rq w) = w3"
  proof
    assume a: "fst (statement w1) \<noteq> None"
    with eff w2 eid f1 f3
    have b: "eid = None" "executions w2 = executions w" "executions w3 = executions w"
      by (cases cres; simp)+
    have "snd (processWebhook env rq w) = w3"
      unfolding stages b(1) by (cases r) (simp_all add: store_step_no_id failure_step_no_id)
    with b show "eid = None \<and> executions w2 = executions w \<and> executions w3 = executions w
            \<and> snd (processWebhook env rq w) = w3" by simp
  qed
  have 5: "w3 = w2\<lparr>clock := clock w1 + run_elapsed ?orch\<rparr>"
    using orch[THEN conjunct1] f2(2) by simp
  have 8: "map ex_id (executions (snd (processWebhook env rq w))) = map ex_id (executions w2)
       \<and> map ex_skillId (executions (snd (processWebhook env rq w))) = map ex_skillId (executions w2)
       \<and> map ex_startedAt (executions (snd (processWebhook env rq w))) = map ex_startedAt (executions w2)"
    unfolding stages using store_step_keeps failure_step_keeps f3(2) by (cases r) simp_all
  from 1 2 3 4 5 orch[THEN conjunct2, THEN conjunct1] orch[THEN conjunct2, THEN conjunct2] stages
       8[THEN conjunct1] 8[THEN conjunct2, THEN conjunct1] 8[THEN conjunct2, THEN conjunct2]
  show ?thesis by (intro conjI)
qed

text \<open>
  At the concrete request, the state handed to the orchestrator has the Execution with status
  running while the run counter of the matched skill is still 5 and its last-run timestamp is
  still unset; 250 ms later, when the orchestrator returns, this is still so. The counter is
  written only by the step that stores the result.
\<close>

theorem running_execution_without_counter_counterexample:
  "fst (classify_step env0 rq0 world0) = c0
   \<and> matched_workflow c0 = Some (''skill-1'', weekly_workflow)
   \<and> map sk_runCount (skills world0) = [5]
   \<and> fst (create_step c0 rq0 (snd (classify_step env0 rq0 world0))) = Some ''exec-1''
   \<and> map ex_status (executions (snd (create_step c0 rq0 (snd (classify_step env0 rq0 world0))))) = [Running]
   \<and> map sk_runCount (skills (snd (create_step c0 rq0 (snd (classify_step env0 rq0 world0))))) = [5]
   \<and> map sk_lastRunAt (skills (snd (create_step c0 rq0 (snd (classify_step env0 rq0 world0))))) = [None]
   \<and> map ex_status (executions (snd (execute_step env0 c0 rq0
         (snd (create_step c0 rq0 (snd (classify_step env0 rq0 world0))))))) = [Running]
   \<and> map sk_runCount (skills (snd (execute_step env0 c0 rq0
         (snd (create_step c0 rq0 (snd (classify_step env0 rq0 world0))))))) = [5]
   \<and> map sk_lastRunAt (skills (snd (execute_step env0 c0 rq0
         (snd (create_step c0 rq0 (snd (classify_step env0 rq0 world0))))))) = [None]
   \<and> clock (snd (execute_step env0 c0 rq0
         (snd (create_step c0 rq0 (snd (classify_step env0 rq0 world0)))))) = 1250
   \<and> snd (processWebhook env0 rq0 world0)
       = store_step rq0 (Some ''exec-1'') ''done'' [] [JStr ''result'']
           (snd (execute_step env0 c0 rq0 (snd (create_step c0 rq0 (snd (classify_step env0 rq0 world0))))))"
  by code_simp

theorem execution_created_before_orchestration_witness:
  "loadPrompts env0 = None
   \<and> fst (classify_step env0 rq0 world0) = c0
   \<and> matched_workflow c0 = Some (''skill-1'', weekly_workflow)
   \<and> fst (statement (snd (classify_step env0 rq0 world0))) = None
   \<and> map ex_startedAt (executions (snd (processWebhook env0 rq0 world0))) = [1000]
   \<and> map ex_completedAt (executions (snd (processWebhook env0 rq0 world0))) = [Some 1250]
   \<and> map ex_status (executions (snd (processWebhook env_crash rq0 world0))) = [Failed]
   \<and> map ex_startedAt (executions (snd (processWebhook env_crash rq0 world0))) = [1000]
   \<and> map ex_completedAt (executions (snd (processWebhook env_crash rq0 world0))) = [Some 1250]
   \<and> fst (statement (snd (classify_step env0 rq0 world_create_down)))
        = Some (JsError (StrCode ''P1001'') ''Can't reach database server'')
   \<and> executions (snd (processWebhook env0 rq0 world_create_down)) = []
   \<and> map sk_runCount (skills (snd (processWebhook env0 rq0 world_create_down))) = [5]
   \<and> fst (processWebhook env0 rq0 world_create_down)
        = Inr \<lparr>wr_response = ''done'', wr_files = [], wr_requestId = ''req-1'', wr_trace = [JStr ''result''],
               wr_workflowId = Some ''skill-1'', wr_workflow = Some weekly_workflow\<rparr>"
proof -
  have m: "matched_workflow c0 = Some (''skill-1'', weekly_workflow)" by code_simp
  have lp: "loadPrompts env0 = None" by (simp add: env0_def)
  have lpc: "loadPrompts env_crash = None" by (simp add: env_crash_def env0_def)
  define w1 where "w1 = snd (classify_step env0 rq0 world0)"
  define eid where "eid = fst (create_step c0 rq0 w1)"
  define w2 where "w2 = snd (create_step c0 rq0 w1)"
  define r where "r = fst (execute_step env0 c0 rq0 w2)"
  define w3 where "w3 = snd (execute_step env0 c0 rq0 w2)"
  have c: "fst (classify_step env0 rq0 world0) = c0" by code_simp
  have cl: "classify_step env0 rq0 world0 = (c0, w1)" unfolding w1_def c[symmetric] by simp
  have cr: "create_step c0 rq0 w1 = (eid, w2)" by (simp add: eid_def w2_def)
  have ex: "execute_step env0 c0 rq0 w2 = (r, w3)" by (simp add: r_def w3_def)
  have s: "fst (statement w1) = None" unfolding w1_def by code_simp
  have k: "clock w1 = 1000" unfolding w1_def by code_simp
  have e0: "executions world0 = []" by (simp add: world0_def)
  note A = execution_created_before_orchestration[OF lp cl m cr ex]
  note A3 = A[THEN conjunct2, THEN conjunct2, THEN conjunct1, THEN mp, OF s, THEN conjunct2, THEN conjunct1]
  note A9 = A[THEN conjunct2, THEN conjunct2, THEN conjunct2, THEN conjunct2, THEN conjunct2, THEN conjunct2,
              THEN conjunct2, THEN conjunct2, THEN conjunct2, THEN conjunct2]
  have a: "map ex_startedAt (executions (snd (processWebhook env0 rq0 world0))) = [1000]"
    unfolding A9 A3 by (simp add: k e0)
  have a': "map ex_completedAt (executions (snd (processWebhook env0 rq0 world0))) = [Some 1250]" by code_simp
  define v1 where "v1 = snd (classify_step env_crash rq0 world0)"
  define vid where "vid = fst (create_step c0 rq0 v1)"
  define v2 where "v2 = snd (create_step c0 rq0 v1)"
  define vr where "vr = fst (execute_step env_crash c0 rq0 v2)"
  define v3 where "v3 = snd (execute_step env_crash c0 rq0 v2)"
  have cc: "fst (classify_step env_crash rq0 world0) = c0" by code_simp
  have vcl: "classify_step env_crash rq0 world0 = (c0, v1)" unfolding v1_def cc[symmetric] by simp
  have vcr: "create_step c0 rq0 v1 = (vid, v2)" by (simp add: vid_def v2_def)
  have vex: "execute_step env_crash c0 rq0 v2 = (vr, v3)" by (simp add: vr_def v3_def)
  have vs: "fst (statement v1) = None" unfolding v1_def by code_simp
  have vk: "clock v1 = 1000" unfolding v1_def by code_simp
  note B = execution_created_before_orchestration[OF lpc vcl m vcr vex]
  note B3 = B[THEN conjunct2, THEN conjunct2, THEN conjunct1, THEN mp, OF vs, THEN conjunct2, THEN conjunct1]
  note B9 = B[THEN conjunct2, THEN conjunct2, THEN conjunct2, THEN conjunct2, THEN conjunct2, THEN conjunct2,
              THEN conjunct2, THEN conjunct2, THEN conjunct2, THEN conjunct2]
  have b: "map ex_startedAt (executions (snd (processWebhook env_crash rq0 world0))) = [1000]"
    unfolding B9 B3 by (simp add: vk e0)
  have b1: "map ex_status (executions (snd (processWebhook env_crash rq0 world0))) = [Failed]" by code_simp
  have b2: "map ex_completedAt (executions (snd (processWebhook env_crash rq0 world0))) = [Some 1250]" by code_simp
  define u1 where "u1 = snd (classify_step env0 rq0 world_create_down)"
  define uid where "uid = fst (create_step c0 rq0 u1)"
  define u2 where "u2 = snd (create_step c0 rq0 u1)"
  define ur where "ur = fst (execute_step env0 c0 rq0 u2)"
  define u3 where "u3 = snd (execute_step env0 c0 rq0 u2)"
  have uc: "fst (classify_step env0 rq0 world_create_down) = c0" by code_simp
  have ucl: "classify_step env0 rq0 world_create_down = (c0, u1)" unfolding u1_def uc[symmetric] by simp
  have ucr: "create_step c0 rq0 u1 = (uid, u2)" by (simp add: uid_def u2_def)
  have uex: "execute_step env0 c0 rq0 u2 = (ur, u3)" by (simp add: ur_def u3_def)
  have us: "fst (statement u1) = Some (JsError (StrCode ''P1001'') ''Can't reach database server'')"
    unfolding u1_def by code_simp
  then have us': "fst (statement u1) \<noteq> None" by simp
  note C = execution_created_before_orchestration[OF lp ucl m ucr uex]
  note C4 = C[THEN conjunct2, THEN conjunct2, THEN conjunct2, THEN conjunct1, THEN mp, OF us']
  have d0: "executions world_create_down = []" "map sk_runCount (skills world_create_down) = [5]"
    by (simp_all add: world_create_down_def world0_def weekly_def)
  have d: "executions (snd (processWebhook env0 rq0 world_create_down)) = []"
    unfolding C4[THEN conjunct2, THEN conjunct2, THEN conjunct2]
      C4[THEN conjunct2, THEN conjunct2, THEN conjunct1] by (rule d0(1))
  have d1: "map sk_runCount (skills (snd (processWebhook env0 rq0 world_create_down))) = [5]"
    unfolding C4[THEN conjunct2, THEN conjunct2, THEN conjunct2]
      C[THEN conjunct2, THEN conjunct1] by (rule d0(2))
  have d2: "fst (processWebhook env0 rq0 world_create_down)
        = Inr \<lparr>wr_response = ''done'', wr_files = [], wr_requestId = ''req-1'', wr_trace = [JStr ''result''],
               wr_workflowId = Some ''skill-1'', wr_workflow = Some weekly_workflow\<rparr>" by code_simp
  from lp c m s[unfolded w1_def] a a' b1 b b2 us[unfolded u1_def] d d1 d2 show ?thesis by (intro conjI)
qed

text \<open>
  The helper \<^verbatim>\<open>createSkillExecution\<close>, which the pipeline does not call, is the one that
  pairs the two writes: it adds the running row and counts the run, or it leaves both tables
  as they were.
\<close>

lemma skill_update_effect:
  "skill_update skillId now w = (r, w') \<Longrightarrow>
     executions w' = executions w \<and>
     (case r of Inl e \<Rightarrow> skills w' = skills w
              | Inr u \<Rightarrow> skills w' = map (bump skillId now) (skills w))"
proof -
  assume a: "skill_update skillId now w = (r, w')"
  obtain f w1 where s: "statement w = (f, w1)" by (cases "statement w")
  from a s statement_frame[OF s] show ?thesis
    by (cases f) (auto simp: skill_update_def bump_def[abs_def] split: if_splits)
qed

lemma createSkillExecution_all_or_nothing:
  assumes "createSkillExecution skillId trig inp w = (r, w')"
  shows "case r of
           Inl e \<Rightarrow> skills w' = skills w \<and> executions w' = executions w
         | Inr row \<Rightarrow> ex_status row = Running \<and> ex_skillId row = skillId
                      \<and> executions w' = executions w @ [row]
                      \<and> skills w' = map (bump skillId (clock w)) (skills w)"
proof -
  let ?inp = "case inp of None \<Rightarrow> JNull | Some i \<Rightarrow> if truthy i then i else JNull"
  obtain r1 w1 where c: "execution_create skillId trig ?inp (clock w) w = (r1, w1)"
    by (cases "execution_create skillId trig ?inp (clock w) w")
  note e1 = execution_create_effect[OF c]
  show ?thesis
  proof (cases r1)
    case (Inl e)
    with assms c show ?thesis by (auto simp: createSkillExecution_def)
  next
    case (Inr row)
    obtain r2 w2 where u: "skill_update skillId (clock w1) w1 = (r2, w2)"
      by (cases "skill_update skillId (clock w1) w1")
    note e2 = skill_update_effect[OF u]
    show ?thesis
    proof (cases r2)
      case (Inl e)
      with assms c u Inr show ?thesis by (auto simp: createSkillExecution_def)
    next
      case ok: (Inr x)
      with assms c u Inr e1 e2 show ?thesis by (auto simp: createSkillExecution_def)
    qed
  qed
qed

lemma statement_no_fault: "faults w = [] \<Longrightarrow> statement w = (None, w)"
  by (simp add: statement_def)

lemma find_Some_set: "find P xs = Some x \<Longrightarrow> x \<in> set xs \<and> P x"
  by (induction xs) (auto split: if_splits)

lemma find_map_update:
  assumes "find (\<lambda>r. ex_id r = eid) xs = Some row"
  shows "find (\<lambda>r. ex_id r = eid) (map (\<lambda>r. if ex_id r = eid then apply_update result now r else r) xs)
           = Some (apply_update result now row)"
  using assms by (induction xs) (auto simp: apply_update_def)

lemma execution_update_healthy:
  assumes nf: "faults w = []" and v: "valid_duration (r_durationMs result)"
    and ex: "\<exists>r \<in> set (executions w). ex_id r = eid"
  shows "execution_update eid result now w =
           (Inr (), w\<lparr>executions := map (\<lambda>r. if ex_id r = eid then apply_update result now r else r) (executions w)\<rparr>)"
  using nf v ex by (simp add: execution_update_def statement_no_fault)

lemma execution_findUnique_healthy:
  "faults w = [] \<Longrightarrow> execution_findUnique eid w = (Inr (find (\<lambda>r. ex_id r = eid) (executions w)), w)"
  by (simp add: execution_findUnique_def statement_no_fault)

lemma skill_update_healthy:
  assumes nf: "faults w = []" and sk: "\<exists>s \<in> set (skills w). sk_id s = skillId"
  shows "skill_update skillId now w = (Inr (), w\<lparr>skills := map (bump skillId now) (skills w)\<rparr>)"
  using nf sk by (simp add: skill_update_def statement_no_fault bump_def[abs_def])

lemma updateExecution_healthy:
  assumes nf: "faults w = []" and v: "valid_duration (r_durationMs result)"
    and row: "find (\<lambda>r. ex_id r = eid) (executions w) = Some row"
    and sid: "ex_skillId row = skillId" "skillId \<noteq> []"
    and sk: "\<exists>s \<in> set (skills w). sk_id s = skillId"
  shows "updateExecution eid result w =
           w\<lparr>executions := map (\<lambda>r. if ex_id r = eid then apply_update result (clock w) r else r) (executions w),
             skills := map (bump skillId (clock w)) (skills w)\<rparr>"
proof -
  define w1 where "w1 = w\<lparr>executions := map (\<lambda>r. if ex_id r = eid then apply_update result (clock w) r else r) (executions w)\<rparr>"
  define row1 where "row1 = apply_update result (clock w) row"
  from row have ex: "\<exists>r \<in> set (executions w). ex_id r = eid"
    by (auto dest: find_Some_set)
  have u: "execution_update eid result (clock w) w = (Inr (), w1)"
    unfolding w1_def using nf v ex by (rule execution_update_healthy)
  have p1: "faults w1 = []" "clock w1 = clock w" "skills w1 = skills w"
    using nf by (simp_all add: w1_def)
  have fr: "find (\<lambda>r. ex_id r = eid) (executions w1) = Some row1"
    unfolding row1_def using find_map_update[OF row] by (simp add: w1_def)
  have f: "execution_findUnique eid w1 = (Inr (Some row1), w1)"
    using execution_findUnique_healthy[OF p1(1), of eid] fr by simp
  have s: "ex_skillId row1 = skillId" "ex_skillId row1 \<noteq> []"
    using sid by (simp_all add: apply_update_def row1_def)
  have sk1: "\<exists>s \<in> set (skills w1). sk_id s = skillId" using sk p1(3) by simp
  have k: "skill_update skillId (clock w1) w1 = (Inr (), w1\<lparr>skills := map (bump skillId (clock w1)) (skills w1)\<rparr>)"
    using p1(1) sk1 by (rule skill_update_healthy)
  have "updateExecution eid result w = w1\<lparr>skills := map (bump skillId (clock w1)) (skills w1)\<rparr>"
    unfolding updateExecution_def u using sid(2) by (simp add: f s k)
  then show ?thesis by (simp add: w1_def)
qed

lemma bump_keeps_id: "sk_id (bump skillId now row) = sk_id row"
  by (simp add: bump_def)

lemma find_append_fresh:
  "eid \<notin> ex_id ` set xs \<Longrightarrow> ex_id row = eid \<Longrightarrow> find (\<lambda>r. ex_id r = eid) (xs @ [row]) = Some row"
  by (induction xs) auto

lemma updateExecution_healthy_props:
  assumes nf: "faults w = []" and v: "valid_duration (r_durationMs result)"
    and row: "find (\<lambda>r. ex_id r = eid) (executions w) = Some row"
    and sid: "ex_skillId row = skillId" "skillId \<noteq> []"
    and sk: "\<exists>s \<in> set (skills w). sk_id s = skillId"
    and w': "w' = updateExecution eid result w"
  shows "faults w' = [] \<and> clock w' = clock w
       \<and> skills w' = map (bump skillId (clock w)) (skills w)
       \<and> (\<exists>row'. find (\<lambda>r. ex_id r = eid) (executions w') = Some row' \<and> ex_skillId row' = skillId)
       \<and> (\<exists>s \<in> set (skills w'). sk_id s = skillId)"
proof -
  note h = updateExecution_healthy[OF nf v row sid sk]
  have a: "faults w' = []" "clock w' = clock w" "skills w' = map (bump skillId (clock w)) (skills w)"
    unfolding w' h using nf by simp_all
  have b: "find (\<lambda>r. ex_id r = eid) (executions w') = Some (apply_update result (clock w) row)"
    unfolding w' h using find_map_update[OF row] by simp
  have c: "ex_skillId (apply_update result (clock w) row) = skillId"
    using sid by (simp add: apply_update_def)
  have d: "\<exists>s \<in> set (skills w'). sk_id s = skillId"
    unfolding a(3) using sk by (auto simp: bump_keeps_id)
  from a b c d show ?thesis by blast
qed

lemma store_step_healthy:
  assumes nf: "faults w = []"
    and v: "valid_duration (md_durationMs \<lparr>md_request = rq_metadata rq, md_executionId = Some eid\<rparr>)"
    and row: "find (\<lambda>r. ex_id r = eid) (executions w) = Some row"
    and sid: "ex_skillId row = skillId" "skillId \<noteq> []"
    and sk: "\<exists>s \<in> set (skills w). sk_id s = skillId"
    and ene: "eid \<noteq> []"
  shows "skills (store_step rq (Some eid) resp files tr w)
           = map (bump skillId (clock w)) (map (bump skillId (clock w)) (skills w))"
proof -
  define r1 where "r1 = \<lparr>r_status = completed, r_output = Some resp, r_trace = None, r_error = None,
                r_durationMs = md_durationMs \<lparr>md_request = rq_metadata rq, md_executionId = Some eid\<rparr>,
                r_tokenCount = None\<rparr>"
  define w1 where "w1 = updateExecution eid r1 w"
  define r2 where "r2 = \<lparr>r_status = completed, r_output = Some resp, r_trace = Some tr,
                r_error = None, r_durationMs = Some (JNum (clock w1 - rq_startTime rq)),
                r_tokenCount = None\<rparr>"
  have v1: "valid_duration (r_durationMs r1)" using v by (simp add: r1_def)
  have v2: "valid_duration (r_durationMs r2)" by (simp add: r2_def)
  from updateExecution_healthy_props[OF nf v1 row sid sk w1_def]
  obtain row' where p1: "faults w1 = []" "clock w1 = clock w"
      "skills w1 = map (bump skillId (clock w)) (skills w)"
      "find (\<lambda>r. ex_id r = eid) (executions w1) = Some row'" "ex_skillId row' = skillId"
      "\<exists>s \<in> set (skills w1). sk_id s = skillId"
    by blast
  from updateExecution_healthy_props[OF p1(1) v2 p1(4) p1(5) sid(2) p1(6) refl]
  have p2: "skills (updateExecution eid r2 w1) = map (bump skillId (clock w1)) (skills w1)" by blast
  have up: "upsertResult (rq_requestId rq) resp files \<lparr>md_request = rq_metadata rq, md_executionId = Some eid\<rparr> w = w1"
    using ene by (simp add: upsertResult_def w1_def r1_def)
  have "store_step rq (Some eid) resp files tr w = updateExecution eid r2 w1"
    unfolding store_step_def Let_def up using ene by (simp add: r2_def)
  with p2 p1(2,3) show ?thesis by simp
qed

lemma create_step_healthy:
  assumes m: "matched_workflow c = Some (skillId, workflow)" and nf: "faults w = []"
    and fresh: "new_id (next_id w) \<notin> ex_id ` set (executions w)"
    and w2: "w2 = snd (create_step c rq w)"
  shows "fst (create_step c rq w) = Some (new_id (next_id w)) \<and> faults w2 = [] \<and> clock w2 = clock w
       \<and> skills w2 = skills w
       \<and> (\<exists>row. find (\<lambda>r. ex_id r = new_id (next_id w)) (executions w2) = Some row \<and> ex_skillId row = skillId)"
proof -
  define row where "row = \<lparr>ex_id = new_id (next_id w), ex_skillId = skillId, ex_status = Running,
                   ex_trigger = Webhook, ex_input = execution_input rq,
                   ex_output = None, ex_trace = None, ex_error = None, ex_durationMs = None,
                   ex_tokenCount = None, ex_startedAt = clock w, ex_completedAt = None\<rparr>"
  have cr: "create_step c rq w = (Some (new_id (next_id w)), w\<lparr>executions := executions w @ [row], next_id := Suc (next_id w)\<rparr>)"
    using m nf by (simp add: create_step_def createExecution_def execution_create_def statement_no_fault
        execution_input_def Let_def row_def)
  have i: "ex_id row = new_id (next_id w)" "ex_skillId row = skillId" by (simp_all add: row_def)
  have f: "find (\<lambda>r. ex_id r = new_id (next_id w)) (executions w @ [row]) = Some row"
    using find_append_fresh[OF fresh i(1)] .
  show ?thesis unfolding w2 cr using nf f i(2) by simp
qed

lemma success_counts_twice:
  assumes lp: "loadPrompts env = None"
    and cl: "classify_step env rq w = (c, w1)"
    and m: "matched_workflow c = Some (skillId, workflow)"
    and nf: "faults w1 = []"
    and ok: "run_outcome (executeWorkflowOrchestrator env workflow (rq_prompt rq) (rq_requestId rq)) = Inr ar"
    and v: "valid_duration (md_durationMs \<lparr>md_request = rq_metadata rq, md_executionId = Some (new_id (next_id w1))\<rparr>)"
    and fresh: "new_id (next_id w1) \<notin> ex_id ` set (executions w1)"
    and sk: "\<exists>s \<in> set (skills w). sk_id s = skillId"
    and fin: "finished = clock w1 + run_elapsed (executeWorkflowOrchestrator env workflow (rq_prompt rq) (rq_requestId rq))"
  shows "fst (processWebhook env rq w) \<noteq> Inl e
       \<and> skills (snd (processWebhook env rq w)) = map (bump skillId finished) (map (bump skillId finished) (skills w))"
proof -
  define eid where "eid = new_id (next_id w1)"
  define w2 where "w2 = snd (create_step c rq w1)"
  define w3 where "w3 = w2\<lparr>clock := finished\<rparr>"
  from m have sne: "skillId \<noteq> []" by (auto simp: matched_workflow_def split: option.splits if_splits)
  have ene: "eid \<noteq> []" by (simp add: new_id_def eid_def)
  have sk0: "skills w1 = skills w" using classify_step_frame[of env rq w] cl by simp
  from create_step_healthy[OF m nf fresh w2_def]
  obtain row where c2: "fst (create_step c rq w1) = Some eid" "faults w2 = []" "clock w2 = clock w1"
      "skills w2 = skills w1" "find (\<lambda>r. ex_id r = eid) (executions w2) = Some row" "ex_skillId row = skillId"
    unfolding eid_def by blast
  have cr: "create_step c rq w1 = (Some eid, w2)" using c2(1) w2_def by (cases "create_step c rq w1") simp
  have ex: "execute_step env c rq w2 = (Inr ar, w3)"
    using m ok fin c2(3) by (simp add: execute_step_def Let_def w3_def)
  have p3: "faults w3 = []" "clock w3 = finished" "skills w3 = skills w"
      "find (\<lambda>r. ex_id r = eid) (executions w3) = Some row" "\<exists>s \<in> set (skills w3). sk_id s = skillId"
    using c2 sk0 sk by (simp_all add: w3_def)
  from v have v': "valid_duration (md_durationMs \<lparr>md_request = rq_metadata rq, md_executionId = Some eid\<rparr>)"
    by (simp add: eid_def)
  define files where "files = files_step env rq (ar_workingDirectory ar)"
  define resp where "resp = ar_text ar @ formatFilesForResponse files"
  have pw: "snd (processWebhook env rq w) = store_step rq (Some eid) resp files (ar_trace ar) w3
            \<and> (\<exists>r. fst (processWebhook env rq w) = Inr r)"
    using lp cl cr ex by (simp add: processWebhook_def Let_def resp_def files_def)
  from store_step_healthy[OF p3(1) v' p3(4) c2(6) sne p3(5) ene, of resp files "ar_trace ar"] p3(2,3) pw
  show ?thesis by auto
qed

text \<open>
  Claim C2, as the code has it. On a run in which a skill is matched, no storage statement
  fails from the creation of the Execution on, the id of the new row is fresh, the request
  metadata carries no malformed \<^verbatim>\<open>durationMs\<close> and the orchestrator succeeds, the run
  succeeds and the Skill is counted twice: \<^verbatim>\<open>upsertResult\<close> receives the execution id and
  updates the row and the counter, and \<^verbatim>\<open>processWebhook\<close> then updates both again. The run
  counter ends at its value before the run plus 2.
\<close>

theorem run_count_after_success:
  assumes lp: "loadPrompts env = None"
    and cl: "classify_step env rq w = (c, w1)"
    and m: "matched_workflow c = Some (skillId, workflow)"
    and nf: "faults w1 = []"
    and ok: "run_outcome (executeWorkflowOrchestrator env workflow (rq_prompt rq) (rq_requestId rq)) = Inr ar"
    and v: "valid_duration (md_durationMs \<lparr>md_request = rq_metadata rq, md_executionId = Some (new_id (next_id w1))\<rparr>)"
    and fresh: "new_id (next_id w1) \<notin> ex_id ` set (executions w1)"
    and sk: "\<exists>s \<in> set (skills w). sk_id s = skillId"
    and fin: "finished = clock w1 + run_elapsed (executeWorkflowOrchestrator env workflow (rq_prompt rq) (rq_requestId rq))"
  shows "(\<exists>r. fst (processWebhook env rq w) = Inr r)
       \<and> skills (snd (processWebhook env rq w)) = map (bump skillId finished) (map (bump skillId finished) (skills w))
       \<and> map sk_runCount (skills (snd (processWebhook env rq w)))
            = map (\<lambda>s. if sk_id s = skillId then sk_runCount s + 2 else sk_runCount s) (skills w)"
proof -
  have a: "skills (snd (processWebhook env rq w)) = map (bump skillId finished) (map (bump skillId finished) (skills w))"
    using success_counts_twice[OF lp cl m nf ok v fresh sk fin] by blast
  have b: "\<exists>r. fst (processWebhook env rq w) = Inr r"
  proof (cases "fst (processWebhook env rq w)")
    case (Inl e)
    with success_counts_twice[OF lp cl m nf ok v fresh sk fin, of e] show ?thesis by simp
  next
    case (Inr r)
    then show ?thesis by blast
  qed
  have c: "map sk_runCount (map (bump skillId finished) (map (bump skillId finished) (skills w)))
            = map (\<lambda>s. if sk_id s = skillId then sk_runCount s + 2 else sk_runCount s) (skills w)"
    by (simp add: bump_def)
  from a b c show ?thesis by simp
qed

theorem run_count_after_success_witness:
  "map sk_runCount (skills world0) = [5]
   \<and> map ex_status (executions (snd (processWebhook env0 rq0 world0))) = [Completed]
   \<and> map sk_runCount (skills (snd (processWebhook env0 rq0 world0))) = [7]"
proof -
  define w1 where "w1 = snd (classify_step env0 rq0 world0)"
  have lp: "loadPrompts env0 = None" by (simp add: env0_def)
  have c: "fst (classify_step env0 rq0 world0) = c0" by code_simp
  have cl: "classify_step env0 rq0 world0 = (c0, w1)" unfolding w1_def c[symmetric] by simp
  have m: "matched_workflow c0 = Some (''skill-1'', weekly_workflow)" by code_simp
  have nf: "faults w1 = []" unfolding w1_def by code_simp
  have ok: "run_outcome (executeWorkflowOrchestrator env0 weekly_workflow (rq_prompt rq0) (rq_requestId rq0))
              = Inr \<lparr>ar_text = ''done'', ar_workingDirectory = ''/tmp/req-1-1000'', ar_trace = [JStr ''result'']\<rparr>"
    by (simp add: env0_def agent_ok_def)
  have v: "valid_duration (md_durationMs \<lparr>md_request = rq_metadata rq0, md_executionId = Some (new_id (next_id w1))\<rparr>)"
    by (simp add: md_durationMs_def rq0_def)
  have fresh: "new_id (next_id w1) \<notin> ex_id ` set (executions w1)" unfolding w1_def by code_simp
  have sk: "\<exists>s \<in> set (skills world0). sk_id s = ''skill-1''" by (simp add: world0_def weekly_def)
  note T = run_count_after_success[OF lp cl m nf ok v fresh sk refl]
  have s0: "map sk_runCount (skills world0) = [5]" "map sk_id (skills world0) = [''skill-1'']"
    by (simp_all add: world0_def weekly_def)
  have 7: "map sk_runCount (skills (snd (processWebhook env0 rq0 world0))) = [7]"
    using T[THEN conjunct2, THEN conjunct2] by (simp add: world0_def weekly_def)
  have st: "map ex_status (executions (snd (processWebhook env0 rq0 world0))) = [Completed]" by code_simp
  from s0(1) st 7 show ?thesis by (intro conjI)
qed

text \<open>
  Claim C3, as amended. An Execution row is created with status running and no
  completed-at; every write of \<^verbatim>\<open>updateExecution\<close> sets a terminal status (completed or
  failed, never running) together with completed-at. So from a table in which completed-at
  is set exactly for the terminal rows, \<^verbatim>\<open>createExecution\<close>, \<^verbatim>\<open>updateExecution\<close> and a whole
  run of \<^verbatim>\<open>processWebhook\<close> lead to such a table again; every row that was there keeps
  its place and id, and a terminal row stays terminal. \<^verbatim>\<open>updateExecution\<close> does not look at
  the current status of the row it writes.
\<close>

theorem execution_status_invariant:
  assumes inv: "\<forall>row \<in> set (executions w). exec_inv row"
  shows "(\<forall>row \<in> set (executions (snd (createExecution skillId requestId trig inp w))). exec_inv row)
       \<and> (\<forall>row \<in> set (executions (updateExecution eid result w)). exec_inv row)
       \<and> (\<forall>row \<in> set (executions (snd (processWebhook env rq w))). exec_inv row)
       \<and> table_step w (updateExecution eid result w)
       \<and> table_step w (snd (processWebhook env rq w))
       \<and> (\<forall>i < length (executions w).
            ex_id (executions (snd (processWebhook env rq w)) ! i) = ex_id (executions w ! i)
            \<and> (terminal (executions w ! i) \<longrightarrow> terminal (executions (snd (processWebhook env rq w)) ! i)))
       \<and> (\<forall>row now. ex_status (apply_update result now row) = status_of (r_status result)
            \<and> ex_status (apply_update result now row) \<noteq> Running
            \<and> ex_completedAt (apply_update result now row) = Some now)"
proof -
  obtain r w' where c: "createExecution skillId requestId trig inp w = (r, w')"
    by (cases "createExecution skillId requestId trig inp w")
  have 1: "\<forall>row \<in> set (executions (snd (createExecution skillId requestId trig inp w))). exec_inv row"
    using createExecution_effect[OF c] c inv
    by (cases r) (auto simp: exec_inv_def terminal_def)
  have 2: "\<forall>row \<in> set (executions (updateExecution eid result w)). exec_inv row"
    using table_step_inv[OF updateExecution_step inv] .
  have 3: "\<forall>row \<in> set (executions (snd (processWebhook env rq w))). exec_inv row"
    using table_step_inv[OF processWebhook_step inv] .
  have 4: "\<forall>i < length (executions w).
            ex_id (executions (snd (processWebhook env rq w)) ! i) = ex_id (executions w ! i)
            \<and> (terminal (executions w ! i) \<longrightarrow> terminal (executions (snd (processWebhook env rq w)) ! i))"
    using table_step_nth[OF processWebhook_step] by blast
  have 5: "\<forall>row now. ex_status (apply_update result now row) = status_of (r_status result)
            \<and> ex_status (apply_update result now row) \<noteq> Running
            \<and> ex_completedAt (apply_update result now row) = Some now"
    by (cases "r_status result") (simp_all add: apply_update_def)
  from 1 2 3 4 5 updateExecution_step processWebhook_step show ?thesis by blast
qed

text \<open>
  A completed Execution is written again by a later \<^verbatim>\<open>updateExecution\<close>: its status becomes
  failed and its completed-at moves from 1250 to 2250.
\<close>

theorem terminal_overwrite_counterexample:
  "map ex_id (executions world1) = [''exec-1'']
   \<and> map ex_status (executions world1) = [Completed]
   \<and> map ex_completedAt (executions world1) = [Some 1250]
   \<and> map ex_status (executions (updateExecution ''exec-1'' late_failure world1)) = [Failed]
   \<and> map ex_completedAt (executions (updateExecution ''exec-1'' late_failure world1)) = [Some 2250]"
  by code_simp

theorem execution_status_invariant_witness:
  "list_all exec_inv (executions world1)
   \<and> list_all exec_inv (executions (snd (processWebhook env0 rq0 world1)))
   \<and> list_all exec_inv (executions (updateExecution ''exec-1'' late_failure world1))
   \<and> length (executions world1) = 1"
proof -
  have h: "\<forall>row \<in> set (executions world1). exec_inv row" by code_simp
  have l: "length (executions world1) = 1" by code_simp
  from execution_status_invariant[OF h, of _ _ _ _ "''exec-1''" late_failure env0 rq0] h l
  show ?thesis by (simp add: list_all_iff)
qed

section \<open>The extraction of the JSON object\<close>







lemma no_match_resolves: "resolve_match env workflows no_match w = (Inr none_result, w)"
  by (simp add: resolve_match_def no_match_def none_result_def)

lemma parse_fails:
  "regex_match text = None \<or> (\<exists>m. regex_match text = Some m \<and> JSON_parse env m = None) \<Longrightarrow>
     parseClassificationResponse env text = no_match"
  by (auto simp: parseClassificationResponse_def)

section \<open>The classifier\<close>

lemma classifyWorkflow_try_text:
  assumes "getAllWorkflows w = (wfs, w1)" "wfs \<noteq> []" "getAnthropicClient env w1 = (Inr k, w2)"
    "messages_create env k (classificationPrompt wfs p) = Inr (TextBlock t # rest)"
  shows "classifyWorkflow_try env p w =
           resolve_match env wfs (parseClassificationResponse env t)
             (w2\<lparr>llm_calls := llm_calls w2 @ [classificationPrompt wfs p]\<rparr>)"
  using assms by (simp add: classifyWorkflow_try_def Let_def)

lemma classifyWorkflow_Inr: "\<exists>r. fst (classifyWorkflow env p w) = Inr r"
  by (cases "classifyWorkflow_try env p w") (auto simp: classifyWorkflow_def split: sum.splits)

lemma classifyWorkflow_catch:
  "fst (classifyWorkflow_try env p w) = Inl e \<Longrightarrow> fst (classifyWorkflow env p w) = Inr none_result"
  by (cases "classifyWorkflow_try env p w") (auto simp: classifyWorkflow_def split: sum.splits)

lemma classifyWorkflow_of_try:
  "classifyWorkflow_try env p w = (Inr r, w') \<Longrightarrow> classifyWorkflow env p w = (Inr r, w')"
  by (simp add: classifyWorkflow_def)

lemma getAllWorkflows_outage:
  "fst (statement w) = Some e \<Longrightarrow> getAllWorkflows w = ([], snd (statement w))"
  by (cases "statement w") (simp add: getAllWorkflows_def skill_findMany_active_def)

lemma getAllWorkflows_empty:
  "fst (statement w) = None \<Longrightarrow> filter sk_isActive (skills w) = [] \<Longrightarrow> getAllWorkflows w = ([], snd (statement w))"
proof -
  assume a: "fst (statement w) = None" "filter sk_isActive (skills w) = []"
  obtain f w' where s: "statement w = (f, w')" by (cases "statement w")
  with a statement_frame[OF s] show ?thesis
    by (simp add: getAllWorkflows_def skill_findMany_active_def)
qed

lemma classifyWorkflow_no_catalog:
  "getAllWorkflows w = ([], w1) \<Longrightarrow> classifyWorkflow env p w = (Inr none_result, w1)"
  by (simp add: classifyWorkflow_def classifyWorkflow_try_def)

lemma getWorkflowById_id: "getWorkflowById i w = (Some d, w') \<Longrightarrow> wf_id d = i"
proof -
  assume a: "getWorkflowById i w = (Some d, w')"
  obtain r w1 where s: "skill_findUnique i w = (r, w1)" by (cases "skill_findUnique i w")
  obtain f w2 where st: "statement w = (f, w2)" by (cases "statement w")
  from a s obtain skill where r: "r = Inr (Some skill)" and d: "wf_id d = sk_id skill"
    by (auto simp: getWorkflowById_def split: sum.splits option.splits)
  from s r st have "find (\<lambda>row. sk_id row = i) (skills w2) = Some skill"
    by (cases f) (auto simp: skill_findUnique_def)
  then have "sk_id skill = i" by (auto simp: find_Some_iff)
  with d show ?thesis by simp
qed




lemma resolve_named:
  assumes "truthy (p_match parsed)" "p_workflowName parsed = JStr name" "name \<noteq> []"
  shows "resolve_match env wfs parsed w =
     (case find (\<lambda>wf. toLowerCase env (ws_name wf) = toLowerCase env name) wfs of
        None \<Rightarrow> (Inr not_found_result, w)
      | Some m \<Rightarrow>
          (case getWorkflowById (ws_id m) w of
             (None, w') \<Rightarrow> (Inr none_result, w')
           | (Some d, w') \<Rightarrow>
               (Inr \<lparr>workflowId = Some (wf_id d), workflowData = Some d,
                     confidence = (if truthy (p_confidence parsed) then p_confidence parsed else JStr ''medium''),
                     reasoning = p_reasoning parsed\<rparr>, w')))"
  using assms by (auto simp: resolve_match_def not_found_result_def split: option.splits)

text \<open>Lower-casing of ASCII text identifies exactly the strings that are equal up to the case of the letters A to Z.\<close>

lemma of_char_char_of_small: "n < 256 \<Longrightarrow> (of_char (char_of n :: char) :: nat) = n"
  by simp

lemma of_char_lt_256: "(of_char (c::char) :: nat) < 256"
  by (cases c) simp

lemma char_le_nat: "(c::char) \<le> d \<longleftrightarrow> (of_char c :: nat) \<le> of_char d"
  by (simp add: less_eq_char_def)

lemma is_upper_range: "is_upper c \<longleftrightarrow> CHR ''A'' \<le> c \<and> c \<le> CHR ''Z''"
  by (simp add: is_upper_def char_le_nat)

lemma of_char_ascii_lower_char:
  "(of_char (ascii_lower_char c) :: nat) = (if is_upper c then of_char c + 32 else of_char c)"
  by (auto simp: ascii_lower_char_def is_upper_range[symmetric] is_upper_def)

lemma of_char_inject: "(of_char (c::char) :: nat) = of_char d \<longleftrightarrow> c = d"
  by (rule of_char_eq_iff)

lemma ascii_lower_char_eq: "ascii_lower_char c = ascii_lower_char d \<longleftrightarrow> same_letter c d"
proof -
  have "ascii_lower_char c = ascii_lower_char d \<longleftrightarrow>
          (of_char (ascii_lower_char c) :: nat) = of_char (ascii_lower_char d)"
    by (simp add: of_char_eq_iff)
  also have "\<dots> \<longleftrightarrow> same_letter c d"
    unfolding of_char_ascii_lower_char same_letter_def
    by (auto simp: is_upper_def of_char_eq_iff[symmetric, where 'a = nat] simp del: of_char_eq_iff)
  finally show ?thesis .
qed

lemma ascii_lower_eq: "ascii_lower a = ascii_lower b \<longleftrightarrow> case_insensitive_eq a b"
  unfolding ascii_lower_def case_insensitive_eq_def
proof (induction a arbitrary: b)
  case Nil
  then show ?case by auto
next
  case (Cons c a)
  then show ?case by (cases b) (auto simp: ascii_lower_char_eq)
qed

lemma resolves_folded:
  assumes reach: "getAllWorkflows w = (wfs, w1)" "wfs \<noteq> []" "getAnthropicClient env w1 = (Inr k, w2)"
      "messages_create env k (classificationPrompt wfs p) = Inr (TextBlock t # rest)"
    and parsed: "truthy (p_match (parseClassificationResponse env t))"
      "p_workflowName (parseClassificationResponse env t) = JStr name" "name \<noteq> []"
    and w3: "w3 = w2\<lparr>llm_calls := llm_calls w2 @ [classificationPrompt wfs p]\<rparr>"
  shows "(find (\<lambda>wf. toLowerCase env (ws_name wf) = toLowerCase env name) wfs = None \<longrightarrow>
            classifyWorkflow env p w = (Inr not_found_result, w3))
       \<and> (\<forall>m. find (\<lambda>wf. toLowerCase env (ws_name wf) = toLowerCase env name) wfs = Some m \<longrightarrow>
            m \<in> set wfs \<and> toLowerCase env (ws_name m) = toLowerCase env name
            \<and> (\<forall>w4. getWorkflowById (ws_id m) w3 = (None, w4) \<longrightarrow>
                  classifyWorkflow env p w = (Inr none_result, w4))
            \<and> (\<forall>d w4. getWorkflowById (ws_id m) w3 = (Some d, w4) \<longrightarrow>
                  wf_id d = ws_id m
                  \<and> classifyWorkflow env p w =
                      (Inr \<lparr>workflowId = Some (ws_id m), workflowData = Some d,
                            confidence = (if truthy (p_confidence (parseClassificationResponse env t))
                                          then p_confidence (parseClassificationResponse env t)
                                          else JStr ''medium''),
                            reasoning = p_reasoning (parseClassificationResponse env t)\<rparr>, w4)))
       \<and> (\<exists>r. fst (classifyWorkflow env p w) = Inr r)"
proof -
  let ?parsed = "parseClassificationResponse env t"
  let ?f = "find (\<lambda>wf. toLowerCase env (ws_name wf) = toLowerCase env name) wfs"
  have tr: "classifyWorkflow_try env p w = resolve_match env wfs ?parsed w3"
    using classifyWorkflow_try_text[OF reach] w3 by simp
  note res = resolve_named[OF parsed, of env wfs w3]
  have 1: "?f = None \<longrightarrow> classifyWorkflow env p w = (Inr not_found_result, w3)"
    using tr res by (auto simp: classifyWorkflow_def)
  have 2: "\<forall>m. ?f = Some m \<longrightarrow>
            m \<in> set wfs \<and> toLowerCase env (ws_name m) = toLowerCase env name
            \<and> (\<forall>w4. getWorkflowById (ws_id m) w3 = (None, w4) \<longrightarrow>
                  classifyWorkflow env p w = (Inr none_result, w4))
            \<and> (\<forall>d w4. getWorkflowById (ws_id m) w3 = (Some d, w4) \<longrightarrow>
                  wf_id d = ws_id m
                  \<and> classifyWorkflow env p w =
                      (Inr \<lparr>workflowId = Some (ws_id m), workflowData = Some d,
                            confidence = (if truthy (p_confidence ?parsed) then p_confidence ?parsed
                                          else JStr ''medium''),
                            reasoning = p_reasoning ?parsed\<rparr>, w4))"
  proof (intro allI impI)
    fix m assume f: "?f = Some m"
    then have in_set: "m \<in> set wfs" and eq: "toLowerCase env (ws_name m) = toLowerCase env name"
      by (auto dest: find_Some_set)
    have none: "\<forall>w4. getWorkflowById (ws_id m) w3 = (None, w4) \<longrightarrow>
                  classifyWorkflow env p w = (Inr none_result, w4)"
      using tr res f by (simp add: classifyWorkflow_def)
    have some: "\<forall>d w4. getWorkflowById (ws_id m) w3 = (Some d, w4) \<longrightarrow>
                  wf_id d = ws_id m
                  \<and> classifyWorkflow env p w =
                      (Inr \<lparr>workflowId = Some (ws_id m), workflowData = Some d,
                            confidence = (if truthy (p_confidence ?parsed) then p_confidence ?parsed
                                          else JStr ''medium''),
                            reasoning = p_reasoning ?parsed\<rparr>, w4)"
    proof (intro allI impI)
      fix d w4 assume g: "getWorkflowById (ws_id m) w3 = (Some d, w4)"
      from getWorkflowById_id[OF g] have i: "wf_id d = ws_id m" .
      from tr res f g i
      show "wf_id d = ws_id m
                  \<and> classifyWorkflow env p w =
                      (Inr \<lparr>workflowId = Some (ws_id m), workflowData = Some d,
                            confidence = (if truthy (p_confidence ?parsed) then p_confidence ?parsed
                                          else JStr ''medium''),
                            reasoning = p_reasoning ?parsed\<rparr>, w4)"
        by (simp add: classifyWorkflow_def)
    qed
    from in_set eq none some
    show "m \<in> set wfs \<and> toLowerCase env (ws_name m) = toLowerCase env name
            \<and> (\<forall>w4. getWorkflowById (ws_id m) w3 = (None, w4) \<longrightarrow>
                  classifyWorkflow env p w = (Inr none_result, w4))
            \<and> (\<forall>d w4. getWorkflowById (ws_id m) w3 = (Some d, w4) \<longrightarrow>
                  wf_id d = ws_id m
                  \<and> classifyWorkflow env p w =
                      (Inr \<lparr>workflowId = Some (ws_id m), workflowData = Some d,
                            confidence = (if truthy (p_confidence ?parsed) then p_confidence ?parsed
                                          else JStr ''medium''),
                            reasoning = p_reasoning ?parsed\<rparr>, w4))"
      by blast
  qed
  from 1 2 classifyWorkflow_Inr[of env p w] show ?thesis by (intro conjI)
qed

lemma find_first:
  "(\<forall>x \<in> set pre. \<not> P x) \<Longrightarrow> P m \<Longrightarrow> find P (pre @ m # post) = Some m"
  by (induction pre) auto

lemma find_none: "(\<forall>x \<in> set xs. \<not> P x) \<Longrightarrow> find P xs = None"
  by (induction xs) auto

lemma first_split:
  "\<exists>x \<in> set xs. P x \<Longrightarrow> \<exists>pre m post. xs = pre @ m # post \<and> (\<forall>x \<in> set pre. \<not> P x) \<and> P m"
  by (drule split_list_first_prop) blast

lemma folded_names:
  assumes lib: "folds_ascii env" and a: "ascii name" "ascii other"
  shows "(toLowerCase env other = toLowerCase env name) = case_insensitive_eq other name"
  using lib a by (simp add: folds_ascii_def ascii_lower_eq)

lemma resolves_up_to_case:
  assumes reach: "getAllWorkflows w = (wfs, w1)" "wfs \<noteq> []" "getAnthropicClient env w1 = (Inr k, w2)"
      "messages_create env k (classificationPrompt wfs p) = Inr (TextBlock t # rest)"
    and parsed: "truthy (p_match (parseClassificationResponse env t))"
      "p_workflowName (parseClassificationResponse env t) = JStr name" "name \<noteq> []"
    and w3: "w3 = w2\<lparr>llm_calls := llm_calls w2 @ [classificationPrompt wfs p]\<rparr>"
    and lib: "folds_ascii env"
    and asc: "ascii name" "\<forall>wf \<in> set wfs. ascii (ws_name wf)"
  shows "((\<forall>wf \<in> set wfs. \<not> case_insensitive_eq (ws_name wf) name) \<longrightarrow>
            classifyWorkflow env p w = (Inr not_found_result, w3))
       \<and> ((\<exists>wf \<in> set wfs. case_insensitive_eq (ws_name wf) name) \<longrightarrow>
            (\<exists>pre m post. wfs = pre @ m # post
               \<and> (\<forall>x \<in> set pre. \<not> case_insensitive_eq (ws_name x) name)
               \<and> case_insensitive_eq (ws_name m) name))
       \<and> (\<forall>pre m post. wfs = pre @ m # post
               \<and> (\<forall>x \<in> set pre. \<not> case_insensitive_eq (ws_name x) name)
               \<and> case_insensitive_eq (ws_name m) name \<longrightarrow>
            (\<forall>w4. getWorkflowById (ws_id m) w3 = (None, w4) \<longrightarrow>
                  classifyWorkflow env p w = (Inr none_result, w4))
            \<and> (\<forall>d w4. getWorkflowById (ws_id m) w3 = (Some d, w4) \<longrightarrow>
                  wf_id d = ws_id m
                  \<and> classifyWorkflow env p w =
                      (Inr \<lparr>workflowId = Some (ws_id m), workflowData = Some d,
                            confidence = (if truthy (p_confidence (parseClassificationResponse env t))
                                          then p_confidence (parseClassificationResponse env t)
                                          else JStr ''medium''),
                            reasoning = p_reasoning (parseClassificationResponse env t)\<rparr>, w4)))
       \<and> (\<exists>r. fst (classifyWorkflow env p w) = Inr r)
       \<and> case_insensitive_eq ''Daily Report'' ''daily report''
       \<and> \<not> case_insensitive_eq ''Tax Filing 9'' ''daily report''"
proof -
  let ?parsed = "parseClassificationResponse env t"
  let ?P = "\<lambda>wf. toLowerCase env (ws_name wf) = toLowerCase env name"
  let ?Q = "\<lambda>wf. case_insensitive_eq (ws_name wf) name"
  have PQ: "\<forall>wf \<in> set wfs. ?P wf = ?Q wf"
    using folded_names[OF lib asc(1)] asc(2) by blast
  have tr: "classifyWorkflow_try env p w = resolve_match env wfs ?parsed w3"
    using classifyWorkflow_try_text[OF reach] w3 by simp
  note res = resolve_named[OF parsed, of env wfs w3]
  have 1: "(\<forall>wf \<in> set wfs. \<not> ?Q wf) \<longrightarrow> classifyWorkflow env p w = (Inr not_found_result, w3)"
  proof
    assume "\<forall>wf \<in> set wfs. \<not> ?Q wf"
    with PQ have "\<forall>wf \<in> set wfs. \<not> ?P wf" by blast
    then have "find ?P wfs = None" by (rule find_none)
    with tr res show "classifyWorkflow env p w = (Inr not_found_result, w3)"
      by (simp add: classifyWorkflow_def)
  qed
  have 2: "(\<exists>wf \<in> set wfs. ?Q wf) \<longrightarrow>
            (\<exists>pre m post. wfs = pre @ m # post \<and> (\<forall>x \<in> set pre. \<not> ?Q x) \<and> ?Q m)"
    using first_split[of wfs ?Q] by blast
  have 3: "\<forall>pre m post. wfs = pre @ m # post \<and> (\<forall>x \<in> set pre. \<not> ?Q x) \<and> ?Q m \<longrightarrow>
            (\<forall>w4. getWorkflowById (ws_id m) w3 = (None, w4) \<longrightarrow>
                  classifyWorkflow env p w = (Inr none_result, w4))
            \<and> (\<forall>d w4. getWorkflowById (ws_id m) w3 = (Some d, w4) \<longrightarrow>
                  wf_id d = ws_id m
                  \<and> classifyWorkflow env p w =
                      (Inr \<lparr>workflowId = Some (ws_id m), workflowData = Some d,
                            confidence = (if truthy (p_confidence ?parsed) then p_confidence ?parsed
                                          else JStr ''medium''),
                            reasoning = p_reasoning ?parsed\<rparr>, w4))"
  proof (intro allI impI)
    fix pre m post
    assume a: "wfs = pre @ m # post \<and> (\<forall>x \<in> set pre. \<not> ?Q x) \<and> ?Q m"
    then have "(\<forall>x \<in> set pre. \<not> ?P x) \<and> ?P m" using PQ by auto
    then have "find ?P (pre @ m # post) = Some m" using find_first[of pre ?P m post] by blast
    with a have f: "find ?P wfs = Some m" by simp
    have none: "\<forall>w4. getWorkflowById (ws_id m) w3 = (None, w4) \<longrightarrow>
                  classifyWorkflow env p w = (Inr none_result, w4)"
      using tr res f by (simp add: classifyWorkflow_def)
    have some: "\<forall>d w4. getWorkflowById (ws_id m) w3 = (Some d, w4) \<longrightarrow>
                  wf_id d = ws_id m
                  \<and> classifyWorkflow env p w =
                      (Inr \<lparr>workflowId = Some (ws_id m), workflowData = Some d,
                            confidence = (if truthy (p_confidence ?parsed) then p_confidence ?parsed
                                          else JStr ''medium''),
                            reasoning = p_reasoning ?parsed\<rparr>, w4)"
    proof (intro allI impI)
      fix d w4 assume g: "getWorkflowById (ws_id m) w3 = (Some d, w4)"
      from getWorkflowById_id[OF g] have i: "wf_id d = ws_id m" .
      from tr res f g i
      show "wf_id d = ws_id m
                  \<and> classifyWorkflow env p w =
                      (Inr \<lparr>workflowId = Some (ws_id m), workflowData = Some d,
                            confidence = (if truthy (p_confidence ?parsed) then p_confidence ?parsed
                                          else JStr ''medium''),
                            reasoning = p_reasoning ?parsed\<rparr>, w4)"
        by (simp add: classifyWorkflow_def)
    qed
    from none some
    show "(\<forall>w4. getWorkflowById (ws_id m) w3 = (None, w4) \<longrightarrow>
                  classifyWorkflow env p w = (Inr none_result, w4))
            \<and> (\<forall>d w4. getWorkflowById (ws_id m) w3 = (Some d, w4) \<longrightarrow>
                  wf_id d = ws_id m
                  \<and> classifyWorkflow env p w =
                      (Inr \<lparr>workflowId = Some (ws_id m), workflowData = Some d,
                            confidence = (if truthy (p_confidence ?parsed) then p_confidence ?parsed
                                          else JStr ''medium''),
                            reasoning = p_reasoning ?parsed\<rparr>, w4))"
      by (rule conjI)
  qed
  have 5: "case_insensitive_eq ''Daily Report'' ''daily report''" by code_simp
  have 6: "\<not> case_insensitive_eq ''Tax Filing 9'' ''daily report''" by code_simp
  from 1 2 3 classifyWorkflow_Inr[of env p w] 5 6 show ?thesis by (intro conjI)
qed

text \<open>
  Claim C7. When the catalog is not empty, the client answers with a text whose parsed
  \<^verbatim>\<open>match\<close> is truthy and whose \<^verbatim>\<open>workflowName\<close> is a string that is not empty, the name
  is resolved against the catalog as follows. For every \<^verbatim>\<open>toLowerCase\<close> of the library: the
  entry taken is the first one whose lower-cased name equals the lower-cased returned name;
  when there is none, the result is the result for none with the note that the suggested
  workflow was not found; when there is one, the result is the result for none if the full
  skill cannot be fetched, and otherwise the match for the id of that entry; in every case
  \<^verbatim>\<open>classifyWorkflow\<close> returns a result and throws nothing. When the library lower-cases
  ASCII text by folding the letters A to Z, and the returned name and the names of the
  catalog are ASCII, this is the match up to the case of letters: when no name of the catalog
  has the length of the returned name and, at every position, the same character or the same
  letter in the other case, the result is the not-found result; otherwise the first such
  entry in catalog order is the one taken. Daily Report and daily report are equal up to case;
  Tax Filing 9 and daily report, of the same length, are not.
\<close>

theorem classifier_resolves_name:
  assumes reach: "getAllWorkflows w = (wfs, w1)" "wfs \<noteq> []" "getAnthropicClient env w1 = (Inr k, w2)"
      "messages_create env k (classificationPrompt wfs p) = Inr (TextBlock t # rest)"
    and parsed: "truthy (p_match (parseClassificationResponse env t))"
      "p_workflowName (parseClassificationResponse env t) = JStr name" "name \<noteq> []"
    and w3: "w3 = w2\<lparr>llm_calls := llm_calls w2 @ [classificationPrompt wfs p]\<rparr>"
  shows "(find (\<lambda>wf. toLowerCase env (ws_name wf) = toLowerCase env name) wfs = None \<longrightarrow>
            classifyWorkflow env p w = (Inr not_found_result, w3))
       \<and> (\<forall>m. find (\<lambda>wf. toLowerCase env (ws_name wf) = toLowerCase env name) wfs = Some m \<longrightarrow>
            m \<in> set wfs \<and> toLowerCase env (ws_name m) = toLowerCase env name
            \<and> (\<forall>w4. getWorkflowById (ws_id m) w3 = (None, w4) \<longrightarrow>
                  classifyWorkflow env p w = (Inr none_result, w4))
            \<and> (\<forall>d w4. getWorkflowById (ws_id m) w3 = (Some d, w4) \<longrightarrow>
                  wf_id d = ws_id m
                  \<and> classifyWorkflow env p w =
                      (Inr \<lparr>workflowId = Some (ws_id m), workflowData = Some d,
                            confidence = (if truthy (p_confidence (parseClassificationResponse env t))
                                          then p_confidence (parseClassificationResponse env t)
                                          else JStr ''medium''),
                            reasoning = p_reasoning (parseClassificationResponse env t)\<rparr>, w4)))
       \<and> (\<exists>r. fst (classifyWorkflow env p w) = Inr r)
       \<and> (folds_ascii env \<and> ascii name \<and> (\<forall>wf \<in> set wfs. ascii (ws_name wf)) \<longrightarrow>
            ((\<forall>wf \<in> set wfs. \<not> case_insensitive_eq (ws_name wf) name) \<longrightarrow>
               classifyWorkflow env p w = (Inr not_found_result, w3))
          \<and> ((\<exists>wf \<in> set wfs. case_insensitive_eq (ws_name wf) name) \<longrightarrow>
               (\<exists>pre m post. wfs = pre @ m # post
                  \<and> (\<forall>x \<in> set pre. \<not> case_insensitive_eq (ws_name x) name)
                  \<and> case_insensitive_eq (ws_name m) name))
          \<and> (\<forall>pre m post. wfs = pre @ m # post
                  \<and> (\<forall>x \<in> set pre. \<not> case_insensitive_eq (ws_name x) name)
                  \<and> case_insensitive_eq (ws_name m) name \<longrightarrow>
               (\<forall>w4. getWorkflowById (ws_id m) w3 = (None, w4) \<longrightarrow>
                     classifyWorkflow env p w = (Inr none_result, w4))
               \<and> (\<forall>d w4. getWorkflowById (ws_id m) w3 = (Some d, w4) \<longrightarrow>
                     wf_id d = ws_id m
                     \<and> classifyWorkflow env p w =
                         (Inr \<lparr>workflowId = Some (ws_id m), workflowData = Some d,
                               confidence = (if truthy (p_confidence (parseClassificationResponse env t))
                                             then p_confidence (parseClassificationResponse env t)
                                             else JStr ''medium''),
                               reasoning = p_reasoning (parseClassificationResponse env t)\<rparr>, w4))))
       \<and> case_insensitive_eq ''Daily Report'' ''daily report''
       \<and> \<not> case_insensitive_eq ''Tax Filing 9'' ''daily report''"
proof -
  note G = resolves_folded[OF reach parsed w3]
  have A: "folds_ascii env \<and> ascii name \<and> (\<forall>wf \<in> set wfs. ascii (ws_name wf)) \<longrightarrow>
            ((\<forall>wf \<in> set wfs. \<not> case_insensitive_eq (ws_name wf) name) \<longrightarrow>
               classifyWorkflow env p w = (Inr not_found_result, w3))
          \<and> ((\<exists>wf \<in> set wfs. case_insensitive_eq (ws_name wf) name) \<longrightarrow>
               (\<exists>pre m post. wfs = pre @ m # post
                  \<and> (\<forall>x \<in> set pre. \<not> case_insensitive_eq (ws_name x) name)
                  \<and> case_insensitive_eq (ws_name m) name))
          \<and> (\<forall>pre m post. wfs = pre @ m # post
                  \<and> (\<forall>x \<in> set pre. \<not> case_insensitive_eq (ws_name x) name)
                  \<and> case_insensitive_eq (ws_name m) name \<longrightarrow>
               (\<forall>w4. getWorkflowById (ws_id m) w3 = (None, w4) \<longrightarrow>
                     classifyWorkflow env p w = (Inr none_result, w4))
               \<and> (\<forall>d w4. getWorkflowById (ws_id m) w3 = (Some d, w4) \<longrightarrow>
                     wf_id d = ws_id m
                     \<and> classifyWorkflow env p w =
                         (Inr \<lparr>workflowId = Some (ws_id m), workflowData = Some d,
                               confidence = (if truthy (p_confidence (parseClassificationResponse env t))
                                             then p_confidence (parseClassificationResponse env t)
                                             else JStr ''medium''),
                               reasoning = p_reasoning (parseClassificationResponse env t)\<rparr>, w4)))"
  proof
    assume h: "folds_ascii env \<and> ascii name \<and> (\<forall>wf \<in> set wfs. ascii (ws_name wf))"
    note U = resolves_up_to_case[OF reach parsed w3 h[THEN conjunct1] h[THEN conjunct2, THEN conjunct1]
               h[THEN conjunct2, THEN conjunct2]]
    from U[THEN conjunct1] U[THEN conjunct2, THEN conjunct1] U[THEN conjunct2, THEN conjunct2, THEN conjunct1]
    show "((\<forall>wf \<in> set wfs. \<not> case_insensitive_eq (ws_name wf) name) \<longrightarrow>
               classifyWorkflow env p w = (Inr not_found_result, w3))
          \<and> ((\<exists>wf \<in> set wfs. case_insensitive_eq (ws_name wf) name) \<longrightarrow>
               (\<exists>pre m post. wfs = pre @ m # post
                  \<and> (\<forall>x \<in> set pre. \<not> case_insensitive_eq (ws_name x) name)
                  \<and> case_insensitive_eq (ws_name m) name))
          \<and> (\<forall>pre m post. wfs = pre @ m # post
                  \<and> (\<forall>x \<in> set pre. \<not> case_insensitive_eq (ws_name x) name)
                  \<and> case_insensitive_eq (ws_name m) name \<longrightarrow>
               (\<forall>w4. getWorkflowById (ws_id m) w3 = (None, w4) \<longrightarrow>
                     classifyWorkflow env p w = (Inr none_result, w4))
               \<and> (\<forall>d w4. getWorkflowById (ws_id m) w3 = (Some d, w4) \<longrightarrow>
                     wf_id d = ws_id m
                     \<and> classifyWorkflow env p w =
                         (Inr \<lparr>workflowId = Some (ws_id m), workflowData = Some d,
                               confidence = (if truthy (p_confidence (parseClassificationResponse env t))
                                             then p_confidence (parseClassificationResponse env t)
                                             else JStr ''medium''),
                               reasoning = p_reasoning (parseClassificationResponse env t)\<rparr>, w4)))"
      by (intro conjI)
  qed
  have 5: "case_insensitive_eq ''Daily Report'' ''daily report''" by code_simp
  have 6: "\<not> case_insensitive_eq ''Tax Filing 9'' ''daily report''" by code_simp
  from G[THEN conjunct1] G[THEN conjunct2, THEN conjunct1] G[THEN conjunct2, THEN conjunct2] A 5 6
  show ?thesis by (intro conjI)
qed

theorem classifier_resolves_name_witness:
  "getAllWorkflows world_daily = (catalog_daily, world_daily)
   \<and> getAnthropicClient env_daily world_daily = (Inr ''sk-ant-env'', world_daily)
   \<and> p_workflowName (parseClassificationResponse env_daily (''I think... '' @ daily_object)) = JStr ''Daily Report''
   \<and> folds_ascii env_daily \<and> ascii ''Daily Report'' \<and> list_all (\<lambda>wf. ascii (ws_name wf)) catalog_daily
   \<and> map ws_name catalog_daily = [''Weekly Digest'', ''daily report'']
   \<and> fst (classifyWorkflow env_daily ''report please'' world_daily)
       = Inr \<lparr>workflowId = Some ''skill-2'', workflowData = Some daily_workflow,
              confidence = JStr ''high'', reasoning = None\<rparr>
   \<and> fst (classifyWorkflow env_daily ''report please'' world0) = Inr not_found_result"
proof -
  define w3 where "w3 = world_daily\<lparr>llm_calls := llm_calls world_daily @ [classificationPrompt catalog_daily ''report please'']\<rparr>"
  define t where "t = ''I think... '' @ daily_object"
  have 1: "getAllWorkflows world_daily = (catalog_daily, world_daily)" by code_simp
  have 2: "catalog_daily \<noteq> []" by (simp add: catalog_daily_def)
  have 3: "getAnthropicClient env_daily world_daily = (Inr ''sk-ant-env'', world_daily)" by code_simp
  have 4: "messages_create env_daily ''sk-ant-env'' (classificationPrompt catalog_daily ''report please'')
             = Inr (TextBlock t # [])"
    by (simp add: env_daily_def t_def)
  have 5: "truthy (p_match (parseClassificationResponse env_daily t))" unfolding t_def by code_simp
  have 6: "p_workflowName (parseClassificationResponse env_daily t) = JStr ''Daily Report''"
    unfolding t_def by code_simp
  have 7: "''Daily Report'' \<noteq> []" by simp
  have lib: "folds_ascii env_daily" by (simp add: folds_ascii_def env_daily_def env0_def)
  have a1: "ascii ''Daily Report''" by code_simp
  have a2l: "list_all (\<lambda>wf. ascii (ws_name wf)) catalog_daily" by code_simp
  then have a2: "\<forall>wf \<in> set catalog_daily. ascii (ws_name wf)" by (simp only: list_all_iff)
  have names: "map ws_name catalog_daily = [''Weekly Digest'', ''daily report'']" by code_simp
  have dec: "catalog_daily = [weekly_summary] @ daily_summary # []" by (simp add: catalog_daily_def)
  have np: "\<forall>x \<in> set [weekly_summary]. \<not> case_insensitive_eq (ws_name x) ''Daily Report''" by code_simp
  have mp': "case_insensitive_eq (ws_name daily_summary) ''Daily Report''" by code_simp
  have 9: "getWorkflowById (ws_id daily_summary) w3 = (Some daily_workflow, w3)"
    by (simp add: getWorkflowById_def skill_findUnique_def statement_def world_daily_def world0_def
          weekly_def daily_def daily_workflow_def daily_summary_def w3_def)
  have c1: "p_confidence (parseClassificationResponse env_daily t) = JStr ''high''"
    unfolding t_def by code_simp
  have c2: "p_reasoning (parseClassificationResponse env_daily t) = None"
    unfolding t_def by code_simp
  note T0 = classifier_resolves_name[OF 1 2 3 4 5 6 7 w3_def]
  note T = T0[THEN conjunct2, THEN conjunct2, THEN conjunct2, THEN conjunct1, THEN mp,
              OF conjI[OF lib conjI[OF a1 a2]]]
  note M = T[THEN conjunct2, THEN conjunct2, THEN spec, THEN spec, THEN spec, THEN mp,
             OF conjI[OF dec conjI[OF np mp']]]
  note D = M[THEN conjunct2, THEN spec, THEN spec, THEN mp, OF 9, THEN conjunct2]
  have i: "ws_id daily_summary = ''skill-2''" by (simp add: daily_summary_def)
  have r: "fst (classifyWorkflow env_daily ''report please'' world_daily)
       = Inr \<lparr>workflowId = Some ''skill-2'', workflowData = Some daily_workflow,
              confidence = JStr ''high'', reasoning = None\<rparr>"
    unfolding D c1 c2 i by simp
  define w3' where "w3' = world0\<lparr>llm_calls := llm_calls world0 @ [classificationPrompt [weekly_summary] ''report please'']\<rparr>"
  have b1: "getAllWorkflows world0 = ([weekly_summary], world0)" by code_simp
  have b2: "[weekly_summary] \<noteq> []" by simp
  have b3: "getAnthropicClient env_daily world0 = (Inr ''sk-ant-env'', world0)" by code_simp
  have b4: "messages_create env_daily ''sk-ant-env'' (classificationPrompt [weekly_summary] ''report please'')
             = Inr (TextBlock t # [])"
    by (simp add: env_daily_def t_def)
  have b5: "\<forall>wf \<in> set [weekly_summary]. ascii (ws_name wf)" by code_simp
  note T0' = classifier_resolves_name[OF b1 b2 b3 b4 5 6 7 w3'_def]
  note T' = T0'[THEN conjunct2, THEN conjunct2, THEN conjunct2, THEN conjunct1, THEN mp,
              OF conjI[OF lib conjI[OF a1 b5]]]
  have n: "fst (classifyWorkflow env_daily ''report please'' world0) = Inr not_found_result"
    using T'[THEN conjunct1, THEN mp, OF np] by simp
  have b6: "p_workflowName (parseClassificationResponse env_daily (''I think... '' @ daily_object)) = JStr ''Daily Report''"
    using 6 by (simp only: t_def)
  from 1 3 b6 lib a1 a2l names r n show ?thesis by (intro conjI)
qed

text \<open>
  Claim C8. For every environment, prompt and state, \<^verbatim>\<open>classifyWorkflow\<close> returns a
  classification and throws nothing; whenever an exception leaves its \<^verbatim>\<open>try\<close> block the
  result is the result for none. In particular the result is the result for none when the
  statement that fetches the catalog fails, when no API key can be had, when the call of
  the language capability fails, when no JSON object is found or parsed in the response,
  and when the fetch of the full skill fails.
\<close>

theorem classifyWorkflow_total:
  "(\<exists>r. fst (classifyWorkflow env p w) = Inr r)
   \<and> (\<forall>e. fst (classifyWorkflow_try env p w) = Inl e \<longrightarrow> fst (classifyWorkflow env p w) = Inr none_result)
   \<and> (fst (statement w) \<noteq> None \<longrightarrow> fst (classifyWorkflow env p w) = Inr none_result)
   \<and> (getAllWorkflows w = (wfs, w1) \<and> wfs \<noteq> [] \<and> (\<exists>e. getAnthropicClient env w1 = (Inl e, w2))
        \<longrightarrow> fst (classifyWorkflow env p w) = Inr none_result)
   \<and> (getAllWorkflows w = (wfs, w1) \<and> wfs \<noteq> [] \<and> getAnthropicClient env w1 = (Inr k, w2)
        \<and> (\<exists>e. messages_create env k (classificationPrompt wfs p) = Inl e)
        \<longrightarrow> fst (classifyWorkflow env p w) = Inr none_result)
   \<and> (getAllWorkflows w = (wfs, w1) \<and> wfs \<noteq> [] \<and> getAnthropicClient env w1 = (Inr k, w2)
        \<and> messages_create env k (classificationPrompt wfs p) = Inr (TextBlock t # rest)
        \<and> (regex_match t = None \<or> (\<exists>m. regex_match t = Some m \<and> JSON_parse env m = None))
        \<longrightarrow> fst (classifyWorkflow env p w) = Inr none_result)
   \<and> (getAllWorkflows w = (wfs, w1) \<and> wfs \<noteq> [] \<and> getAnthropicClient env w1 = (Inr k, w2)
        \<and> messages_create env k (classificationPrompt wfs p) = Inr (TextBlock t # rest)
        \<and> truthy (p_match (parseClassificationResponse env t))
        \<and> p_workflowName (parseClassificationResponse env t) = JStr name \<and> name \<noteq> []
        \<and> find (\<lambda>wf. toLowerCase env (ws_name wf) = toLowerCase env name) wfs = Some m
        \<and> fst (getWorkflowById (ws_id m) (w2\<lparr>llm_calls := llm_calls w2 @ [classificationPrompt wfs p]\<rparr>)) = None
        \<longrightarrow> fst (classifyWorkflow env p w) = Inr none_result)"
proof -
  have 1: "\<exists>r. fst (classifyWorkflow env p w) = Inr r" by (rule classifyWorkflow_Inr)
  have 2: "\<forall>e. fst (classifyWorkflow_try env p w) = Inl e \<longrightarrow> fst (classifyWorkflow env p w) = Inr none_result"
    using classifyWorkflow_catch by blast
  have 3: "fst (statement w) \<noteq> None \<longrightarrow> fst (classifyWorkflow env p w) = Inr none_result"
    using getAllWorkflows_outage[of w] classifyWorkflow_no_catalog[of w _ env p] by auto
  have 4: "getAllWorkflows w = (wfs, w1) \<and> wfs \<noteq> [] \<and> (\<exists>e. getAnthropicClient env w1 = (Inl e, w2))
        \<longrightarrow> fst (classifyWorkflow env p w) = Inr none_result"
    by (auto simp: classifyWorkflow_def classifyWorkflow_try_def)
  have 5: "getAllWorkflows w = (wfs, w1) \<and> wfs \<noteq> [] \<and> getAnthropicClient env w1 = (Inr k, w2)
        \<and> (\<exists>e. messages_create env k (classificationPrompt wfs p) = Inl e)
        \<longrightarrow> fst (classifyWorkflow env p w) = Inr none_result"
    by (auto simp: classifyWorkflow_def classifyWorkflow_try_def Let_def)
  have 6: "getAllWorkflows w = (wfs, w1) \<and> wfs \<noteq> [] \<and> getAnthropicClient env w1 = (Inr k, w2)
        \<and> messages_create env k (classificationPrompt wfs p) = Inr (TextBlock t # rest)
        \<and> (regex_match t = None \<or> (\<exists>m. regex_match t = Some m \<and> JSON_parse env m = None))
        \<longrightarrow> fst (classifyWorkflow env p w) = Inr none_result"
  proof
    assume a: "getAllWorkflows w = (wfs, w1) \<and> wfs \<noteq> [] \<and> getAnthropicClient env w1 = (Inr k, w2)
        \<and> messages_create env k (classificationPrompt wfs p) = Inr (TextBlock t # rest)
        \<and> (regex_match t = None \<or> (\<exists>m. regex_match t = Some m \<and> JSON_parse env m = None))"
    then have "parseClassificationResponse env t = no_match" using parse_fails by blast
    moreover from a have "classifyWorkflow_try env p w =
           resolve_match env wfs (parseClassificationResponse env t)
             (w2\<lparr>llm_calls := llm_calls w2 @ [classificationPrompt wfs p]\<rparr>)"
      using classifyWorkflow_try_text by blast
    ultimately show "fst (classifyWorkflow env p w) = Inr none_result"
      by (simp add: no_match_resolves classifyWorkflow_def)
  qed
  have 7: "getAllWorkflows w = (wfs, w1) \<and> wfs \<noteq> [] \<and> getAnthropicClient env w1 = (Inr k, w2)
        \<and> messages_create env k (classificationPrompt wfs p) = Inr (TextBlock t # rest)
        \<and> truthy (p_match (parseClassificationResponse env t))
        \<and> p_workflowName (parseClassificationResponse env t) = JStr name \<and> name \<noteq> []
        \<and> find (\<lambda>wf. toLowerCase env (ws_name wf) = toLowerCase env name) wfs = Some m
        \<and> fst (getWorkflowById (ws_id m) (w2\<lparr>llm_calls := llm_calls w2 @ [classificationPrompt wfs p]\<rparr>)) = None
        \<longrightarrow> fst (classifyWorkflow env p w) = Inr none_result"
  proof
    let ?w3 = "w2\<lparr>llm_calls := llm_calls w2 @ [classificationPrompt wfs p]\<rparr>"
    assume a: "getAllWorkflows w = (wfs, w1) \<and> wfs \<noteq> [] \<and> getAnthropicClient env w1 = (Inr k, w2)
        \<and> messages_create env k (classificationPrompt wfs p) = Inr (TextBlock t # rest)
        \<and> truthy (p_match (parseClassificationResponse env t))
        \<and> p_workflowName (parseClassificationResponse env t) = JStr name \<and> name \<noteq> []
        \<and> find (\<lambda>wf. toLowerCase env (ws_name wf) = toLowerCase env name) wfs = Some m
        \<and> fst (getWorkflowById (ws_id m) ?w3) = None"
    then have tr: "classifyWorkflow_try env p w = resolve_match env wfs (parseClassificationResponse env t) ?w3"
      using classifyWorkflow_try_text by blast
    from a have res: "resolve_match env wfs (parseClassificationResponse env t) ?w3
        = (Inr none_result, snd (getWorkflowById (ws_id m) ?w3))"
      by (cases "getWorkflowById (ws_id m) ?w3") (simp add: resolve_named)
    from tr res show "fst (classifyWorkflow env p w) = Inr none_result"
      by (simp add: classifyWorkflow_def)
  qed
  from 1 2 3 4 5 6 7 show ?thesis by blast
qed

theorem classifyWorkflow_total_witness:
  "fst (classifyWorkflow_try env_llm_down ''send the digest'' world0) = Inl (JsError NoCode ''overloaded'')
   \<and> fst (classifyWorkflow env_llm_down ''send the digest'' world0) = Inr none_result
   \<and> fst (statement world_down) = Some (JsError (StrCode ''P1001'') ''Can't reach database server'')
   \<and> fst (classifyWorkflow env0 ''send the digest'' world_down) = Inr none_result"
proof -
  have a: "fst (classifyWorkflow_try env_llm_down ''send the digest'' world0) = Inl (JsError NoCode ''overloaded'')"
    by code_simp
  have b: "fst (statement world_down) = Some (JsError (StrCode ''P1001'') ''Can't reach database server'')"
    by code_simp
  then have b': "fst (statement world_down) \<noteq> None" by (simp only: option.distinct not_False_eq_True)
  note T1 = classifyWorkflow_total[of env_llm_down "''send the digest''" world0]
  note T2 = classifyWorkflow_total[of env0 "''send the digest''" world_down]
  have c: "fst (classifyWorkflow env_llm_down ''send the digest'' world0) = Inr none_result"
    using T1[THEN conjunct2, THEN conjunct1, rule_format, OF a] .
  have d: "fst (classifyWorkflow env0 ''send the digest'' world_down) = Inr none_result"
    using T2[THEN conjunct2, THEN conjunct2, THEN conjunct1, rule_format, OF b'] .
  from a c b d show ?thesis by (intro conjI)
qed

text \<open>
  Claim C10. When the statement that fetches the active skills fails, \<^verbatim>\<open>getAllWorkflows\<close>
  returns the empty list, and \<^verbatim>\<open>classifyWorkflow\<close> returns the result for none and the
  state that the statement left; it returns the same when the statement succeeds and no
  skill is active. That state has the list of prompts sent to the language capability
  unchanged: the capability is not invoked.
\<close>

theorem catalog_outage_reads_as_empty:
  "(fst (statement w) = Some e \<longrightarrow>
       getAllWorkflows w = ([], snd (statement w))
       \<and> classifyWorkflow env p w = (Inr none_result, snd (statement w)))
   \<and> (fst (statement w) = None \<and> filter sk_isActive (skills w) = [] \<longrightarrow>
       getAllWorkflows w = ([], snd (statement w))
       \<and> classifyWorkflow env p w = (Inr none_result, snd (statement w)))
   \<and> llm_calls (snd (statement w)) = llm_calls w
   \<and> skills (snd (statement w)) = skills w"
proof -
  obtain f w' where s: "statement w = (f, w')" by (cases "statement w")
  from statement_frame[OF s] s have 3: "llm_calls (snd (statement w)) = llm_calls w \<and> skills (snd (statement w)) = skills w"
    by simp
  have 1: "fst (statement w) = Some e \<longrightarrow>
       getAllWorkflows w = ([], snd (statement w))
       \<and> classifyWorkflow env p w = (Inr none_result, snd (statement w))"
    using getAllWorkflows_outage[of w e] classifyWorkflow_no_catalog[of w "snd (statement w)" env p] by simp
  have 2: "fst (statement w) = None \<and> filter sk_isActive (skills w) = [] \<longrightarrow>
       getAllWorkflows w = ([], snd (statement w))
       \<and> classifyWorkflow env p w = (Inr none_result, snd (statement w))"
    using getAllWorkflows_empty[of w] classifyWorkflow_no_catalog[of w "snd (statement w)" env p] by simp
  from 1 2 3 show ?thesis by blast
qed

theorem catalog_outage_reads_as_empty_witness:
  "fst (statement world_down) = Some (JsError (StrCode ''P1001'') ''Can't reach database server'')
   \<and> fst (getAllWorkflows world_down) = []
   \<and> fst (classifyWorkflow env0 ''send the digest'' world_down) = Inr none_result
   \<and> llm_calls (snd (classifyWorkflow env0 ''send the digest'' world_down)) = []
   \<and> fst (statement (world0\<lparr>skills := []\<rparr>)) = None
   \<and> fst (classifyWorkflow env0 ''send the digest'' (world0\<lparr>skills := []\<rparr>)) = Inr none_result
   \<and> llm_calls (snd (classifyWorkflow env0 ''send the digest'' (world0\<lparr>skills := []\<rparr>))) = []"
proof -
  have a: "fst (statement world_down) = Some (JsError (StrCode ''P1001'') ''Can't reach database server'')"
    by code_simp
  have b: "fst (statement (world0\<lparr>skills := []\<rparr>)) = None" "filter sk_isActive (skills (world0\<lparr>skills := []\<rparr>)) = []"
    by (simp_all add: statement_def world0_def)
  have l: "llm_calls world_down = []" "llm_calls (world0\<lparr>skills := []\<rparr>) = []"
    by (simp_all add: world_down_def world0_def)
  from catalog_outage_reads_as_empty[of world_down _ env0 "''send the digest''"] a l
  have 1: "fst (getAllWorkflows world_down) = []
     \<and> fst (classifyWorkflow env0 ''send the digest'' world_down) = Inr none_result
     \<and> llm_calls (snd (classifyWorkflow env0 ''send the digest'' world_down)) = []" by simp
  from catalog_outage_reads_as_empty[of "world0\<lparr>skills := []\<rparr>" _ env0 "''send the digest''"] b l
  have 2: "fst (classifyWorkflow env0 ''send the digest'' (world0\<lparr>skills := []\<rparr>)) = Inr none_result
     \<and> llm_calls (snd (classifyWorkflow env0 ''send the digest'' (world0\<lparr>skills := []\<rparr>))) = []" by simp
  from a b 1 2 show ?thesis by blast
qed

section \<open>The secret store\<close>

lemma split_on_no_sep: "sep \<notin> set s \<Longrightarrow> split_on sep s = [s]"
  by (induction s) auto

lemma split_on_append: "sep \<notin> set a \<Longrightarrow> split_on sep (a @ sep # rest) = a # split_on sep rest"
proof (induction a)
  case Nil
  then show ?case by simp
next
  case (Cons c a)
  then show ?case by (cases "split_on sep rest") auto
qed

lemma split_encrypted:
  assumes "CHR '':'' \<notin> set a" "CHR '':'' \<notin> set b" "CHR '':'' \<notin> set c"
  shows "split_on (CHR '':'') (''encrypted:'' @ a @ '':'' @ b @ '':'' @ c) = [''encrypted'', a, b, c]"
proof -
  have e: "CHR '':'' \<notin> set ''encrypted''" by simp
  have "''encrypted:'' @ a @ '':'' @ b @ '':'' @ c = ''encrypted'' @ CHR '':'' # (a @ CHR '':'' # (b @ CHR '':'' # c))"
    by simp
  then show ?thesis
    using assms by (simp add: split_on_append split_on_no_sep)
qed

lemma startsWith_append: "startsWith (p @ s) p"
  by (simp add: startsWith_def)

lemma decrypt_plain: "\<not> startsWith v ''encrypted:'' \<Longrightarrow> decrypt env v = Inr v"
  by (simp add: decrypt_def)

lemma decrypt_encrypt:
  assumes e: "encrypt env iv p = Inr c" and lib: "cipher_round_trip env iv p"
  shows "decrypt env c = Inr p"
proof -
  from e obtain key where k: "getEncryptionKey env = Inr key"
    by (auto simp: encrypt_def split: sum.splits)
  obtain ct tag where ci: "cipher env key iv p = (ct, tag)" by (cases "cipher env key iv p")
  from e k ci have c: "c = ''encrypted:'' @ base64 env iv @ '':'' @ base64 env tag @ '':'' @ ct"
    by (simp add: encrypt_def)
  from lib k ci have l: "CHR '':'' \<notin> set (base64 env iv)" "CHR '':'' \<notin> set (base64 env tag)" "CHR '':'' \<notin> set ct"
    "decipher env key (from_base64 env (base64 env iv)) (from_base64 env (base64 env tag)) ct = Inr p"
    by (simp_all add: cipher_round_trip_def)
  have sp: "split_on (CHR '':'') c = [''encrypted'', base64 env iv, base64 env tag, ct]"
    unfolding c using l(1,2,3) by (rule split_encrypted)
  have sw: "startsWith c ''encrypted:''" unfolding c by (rule startsWith_append)
  show ?thesis
    unfolding decrypt_def using sw sp k l(4) by (simp add: Let_def)
qed

lemma getAnthropicApiKey_stored:
  assumes "fst (statement w) = None" "map_of (configs w) ''anthropic_api_key'' = Some v" "v \<noteq> []"
  shows "fst (getAnthropicApiKey env w) = (case decrypt env v of Inl e \<Rightarrow> None | Inr plain \<Rightarrow> Some plain)"
proof -
  obtain f w' where s: "statement w = (f, w')" by (cases "statement w")
  with assms statement_frame[OF s] show ?thesis
    by (auto simp: getAnthropicApiKey_def config_findUnique_def split: sum.splits)
qed

lemma saveConfig_ok:
  assumes "saveConfig env iv (Some p) w = (200, w')"
  shows "\<exists>c. encrypt env iv p = Inr c \<and> map_of (configs w') ''anthropic_api_key'' = Some c
            \<and> startsWith p ''sk-ant-'' \<and> 20 \<le> length p"
proof -
  from assms have v: "p \<noteq> []" "startsWith p ''sk-ant-''" "\<not> length p < 20"
    by (auto simp: saveConfig_def split: if_splits)
  with assms obtain c where c: "encrypt env iv p = Inr c"
    by (cases "encrypt env iv p") (auto simp: saveConfig_def)
  obtain f w1 where s: "statement w = (f, w1)" by (cases "statement w")
  from assms v c s have "map_of (configs w') ''anthropic_api_key'' = Some c"
    by (cases f) (auto simp: saveConfig_def config_upsert_def)
  with c v show ?thesis by auto
qed

lemma encrypt_marked: "encrypt env iv p = Inr c \<Longrightarrow> startsWith c ''encrypted:'' \<and> c \<noteq> []"
  by (auto simp: encrypt_def startsWith_def split: sum.splits prod.splits)

text \<open>
  Claim C9, as amended. A stored value that is not empty and does not begin with the marker
  \<^verbatim>\<open>encrypted:\<close> is returned by the getter as it is. A value encrypted by \<^verbatim>\<open>encrypt\<close> is
  decrypted to the plaintext by \<^verbatim>\<open>decrypt\<close>, given that the cipher of the library inverts
  itself on it. When the setter \<^verbatim>\<open>saveConfig\<close> answers 200 for a key, the getter returns
  that key from the state the setter left; the setter answers 200 only for keys that begin
  with \<^verbatim>\<open>sk-ant-\<close> and have at least 20 characters.
\<close>

theorem secret_store_round_trip:
  "(v \<noteq> [] \<and> \<not> startsWith v ''encrypted:'' \<and> fst (statement w) = None
      \<and> map_of (configs w) ''anthropic_api_key'' = Some v
    \<longrightarrow> fst (getAnthropicApiKey env w) = Some v)
   \<and> (encrypt env iv p = Inr c \<and> cipher_round_trip env iv p \<longrightarrow> decrypt env c = Inr p)
   \<and> (saveConfig env iv (Some p) w = (200, w') \<and> cipher_round_trip env iv p \<and> fst (statement w') = None
    \<longrightarrow> fst (getAnthropicApiKey env w') = Some p)
   \<and> (saveConfig env iv (Some p) w = (200, w') \<longrightarrow> startsWith p ''sk-ant-'' \<and> 20 \<le> length p)"
proof -
  have 1: "v \<noteq> [] \<and> \<not> startsWith v ''encrypted:'' \<and> fst (statement w) = None
      \<and> map_of (configs w) ''anthropic_api_key'' = Some v
    \<longrightarrow> fst (getAnthropicApiKey env w) = Some v"
    using getAnthropicApiKey_stored[of w v env] decrypt_plain[of v env] by auto
  have 2: "encrypt env iv p = Inr c \<and> cipher_round_trip env iv p \<longrightarrow> decrypt env c = Inr p"
    using decrypt_encrypt by blast
  have 3: "saveConfig env iv (Some p) w = (200, w') \<and> cipher_round_trip env iv p \<and> fst (statement w') = None
    \<longrightarrow> fst (getAnthropicApiKey env w') = Some p"
  proof
    assume a: "saveConfig env iv (Some p) w = (200, w') \<and> cipher_round_trip env iv p \<and> fst (statement w') = None"
    then obtain c' where c: "encrypt env iv p = Inr c'" "map_of (configs w') ''anthropic_api_key'' = Some c'"
      using saveConfig_ok by blast
    from encrypt_marked[OF c(1)] have ne: "c' \<noteq> []" by simp
    from a c(1) have d: "decrypt env c' = Inr p" using decrypt_encrypt by blast
    from a have s: "fst (statement w') = None" by simp
    from getAnthropicApiKey_stored[OF s c(2) ne, of env] d show "fst (getAnthropicApiKey env w') = Some p"
      by simp
  qed
  have 4: "saveConfig env iv (Some p) w = (200, w') \<longrightarrow> startsWith p ''sk-ant-'' \<and> 20 \<le> length p"
    using saveConfig_ok by blast
  from 1 2 3 4 show ?thesis by blast
qed

text \<open>
  A stored value that is the empty string has no marker, and the getter returns nothing
  for it. The setter refuses the plaintext \<^verbatim>\<open>v\<close> with status 400 and stores nothing, so the
  getter returns nothing after it.
\<close>

theorem secret_store_counterexample:
  "\<not> startsWith [] ''encrypted:''
   \<and> fst (statement (world_plain [])) = None
   \<and> map_of (configs (world_plain [])) ''anthropic_api_key'' = Some []
   \<and> fst (getAnthropicApiKey env0 (world_plain [])) = None
   \<and> saveConfig env0 iv_example (Some ''v'') world0 = (400, world0)
   \<and> fst (getAnthropicApiKey env0 (snd (saveConfig env0 iv_example (Some ''v'') world0))) = None"
  by code_simp

theorem secret_store_round_trip_witness:
  "fst (saveConfig env0 iv_example (Some api_key_example) world0) = 200
   \<and> cipher_round_trip env0 iv_example api_key_example
   \<and> fst (getAnthropicApiKey env0 (snd (saveConfig env0 iv_example (Some api_key_example) world0))) = Some api_key_example
   \<and> fst (getAnthropicApiKey env0 (world_plain ''plainvalue'')) = Some ''plainvalue''"
proof -
  let ?w' = "snd (saveConfig env0 iv_example (Some api_key_example) world0)"
  have a: "saveConfig env0 iv_example (Some api_key_example) world0 = (200, ?w')" by code_simp
  have b: "cipher_round_trip env0 iv_example api_key_example" by code_simp
  have c: "fst (statement ?w') = None" by code_simp
  have d: "''plainvalue'' \<noteq> [] \<and> \<not> startsWith ''plainvalue'' ''encrypted:'' \<and> fst (statement (world_plain ''plainvalue'')) = None
      \<and> map_of (configs (world_plain ''plainvalue'')) ''anthropic_api_key'' = Some ''plainvalue''" by code_simp
  note T1 = secret_store_round_trip[where w = world0 and env = env0 and iv = iv_example
      and p = api_key_example and w' = ?w']
  note T2 = secret_store_round_trip[where v = "''plainvalue''" and w = "world_plain ''plainvalue''" and env = env0]
  have 1: "fst (getAnthropicApiKey env0 ?w') = Some api_key_example"
    using T1[THEN conjunct2, THEN conjunct2, THEN conjunct1, rule_format, OF conjI[OF a conjI[OF b c]]] .
  have 2: "fst (getAnthropicApiKey env0 (world_plain ''plainvalue'')) = Some ''plainvalue''"
    using T2[THEN conjunct1, rule_format, OF d] .
  have a': "fst (saveConfig env0 iv_example (Some api_key_example) world0) = 200" by code_simp
  from a' b 1 2 show ?thesis by (intro conjI)
qed

end
